theory Spec2Isabelle
  imports Complex_Main
begin

section \<open>The derushing worker of \<^verbatim>\<open>app/derusher.py\<close>\<close>

text \<open>
  Python floats are modelled as real numbers: sample values, times in seconds, thresholds.
  The literal \<^verbatim>\<open>0.1\<close> is the real \<open>1/10\<close>, and \<open>+\<close>, \<open>-\<close>, \<open>*\<close>, \<open>/\<close>, \<open>max\<close>, \<open>min\<close> and the
  comparisons are exact: rounding, infinities and NaN are outside the model.
  Python's unbounded integers that cannot be negative where they are used (lengths, window
  indices, the sample rate read from a sound file) are natural numbers.
\<close>

subsection \<open>Exceptions\<close>

text \<open>
  The exceptions the code raises or catches by class; each carries its message.
  \<open>OtherException\<close> is any other subclass of \<^verbatim>\<open>Exception\<close> raised by a collaborator
  (the operating system, moviepy, soundfile, the progress callback).
\<close>

datatype exn =
    ValueError string
  | RuntimeError string
  | FileNotFoundError string
  | CalledProcessError
  | ZeroDivisionError
  | TypeError
  | OtherException string

subsection \<open>The worker object\<close>

type_synonym range = "real \<times> real"

datatype event =
    EvMkdtemp
  | EvProgress int
  | EvVideoFileClip string
  | EvNamedTemporaryFile
  | EvWriteAudiofile string
  | EvSfRead string
  | EvVideoClose
  | EvExtractSegment string string real real
  | EvFfmpegExtract string string real real
  | EvConcatSegments "string list" string
  | EvWriteManifest string string
  | EvFfmpegConcat string string
  | EvTempfileClose
  | EvExists string
  | EvRemove string
  | EvListdir string
  | EvRmdir string

text \<open>
  The fields \<^verbatim>\<open>__init__\<close> sets. \<^verbatim>\<open>self.temp_dir\<close> is the one field that changes during a
  run; it lives in the run's state (below). A progress callback gets the value and, like
  every call into the outside world, the history of calls so far; it returns or raises.
\<close>

record DerushWorker =
  video_path :: string
  min_silence_len :: real
  silence_thresh :: real
  max_thresh :: real
  margin :: real
  min_segment_gap :: real
  progress_callback :: "(event list \<Rightarrow> int \<Rightarrow> exn + unit) option"

definition DerushWorker_init :: "string \<Rightarrow> int \<Rightarrow> int \<Rightarrow> int \<Rightarrow> int \<Rightarrow> DerushWorker" where
  "DerushWorker_init vp min_silence_len_ms silence_thresh_db max_thresh_db margin_ms =
     \<lparr> video_path = vp,
       min_silence_len = real_of_int min_silence_len_ms / 1000,
       silence_thresh = real_of_int silence_thresh_db,
       max_thresh = real_of_int max_thresh_db,
       margin = real_of_int margin_ms / 1000,
       min_segment_gap = 2 / 10,
       progress_callback = None \<rparr>"

text \<open>The default arguments of \<^verbatim>\<open>__init__\<close>: 400 ms, -45 dB, -10 dB, 600 ms.\<close>

definition default_worker :: "string \<Rightarrow> DerushWorker" where
  "default_worker vp = DerushWorker_init vp 400 (- 45) (- 10) 600"

subsection \<open>\<^verbatim>\<open>merge_overlapping_ranges\<close>\<close>

text \<open>
  The sweep of lines 62-73 over \<^verbatim>\<open>sorted_ranges[1:]\<close>, with the loop variables \<^verbatim>\<open>merged\<close>,
  \<^verbatim>\<open>current_start\<close> and \<^verbatim>\<open>current_end\<close>; at the end of the list the last range is appended.
\<close>

fun merge_sweep :: "real \<Rightarrow> range list \<Rightarrow> range list \<Rightarrow> real \<Rightarrow> real \<Rightarrow> range list" where
  "merge_sweep gap [] merged current_start current_end = merged @ [(current_start, current_end)]"
| "merge_sweep gap ((start, end) # rest) merged current_start current_end =
     (if start \<le> current_end + gap
      then merge_sweep gap rest merged current_start (max current_end end)
      else merge_sweep gap rest (merged @ [(current_start, current_end)]) start end)"

text \<open>
  \<^verbatim>\<open>sorted(ranges, key=lambda x: x[0])\<close> is a stable sort by the start time, as \<open>sort_key fst\<close> is.
\<close>

definition merge_overlapping_ranges :: "DerushWorker \<Rightarrow> range list \<Rightarrow> range list" where
  "merge_overlapping_ranges self ranges =
     (if ranges = [] then []
      else (case sort_key fst ranges of
              [] \<Rightarrow> []
            | (current_start, current_end) # rest \<Rightarrow>
                merge_sweep (min_segment_gap self) rest [] current_start current_end))"

text \<open>A range \<open>r\<close> covers the ranges \<open>a\<close> and \<open>b\<close>.\<close>

definition covers :: "range \<Rightarrow> range \<Rightarrow> range \<Rightarrow> bool" where
  "covers r a b = (fst r \<le> min (fst a) (fst b) \<and> max (snd a) (snd b) \<le> snd r)"

text \<open>The range \<open>b\<close> starts more than \<open>gap\<close> after the end of \<open>a\<close>.\<close>

definition separated :: "real \<Rightarrow> range \<Rightarrow> range \<Rightarrow> bool" where
  "separated gap a b = (snd a + gap < fst b)"

subsection \<open>\<^verbatim>\<open>detect_nonsilent\<close>\<close>

text \<open>
  \<^verbatim>\<open>np.array_split(ary, n)\<close> for an integer \<open>n\<close>, as numpy defines it (numpy is a library, not
  part of the repository): \<^verbatim>\<open>ValueError\<close> when \<open>n \<le> 0\<close>; otherwise, with
  \<^verbatim>\<open>each, extras = divmod(len(ary), n)\<close>, the section sizes are \<open>extras\<close> times \<open>each + 1\<close>
  followed by \<open>n - extras\<close> times \<open>each\<close>, and section \<open>i\<close> is the slice between the running
  sums \<^verbatim>\<open>div_points[i]\<close> and \<^verbatim>\<open>div_points[i + 1]\<close>.
\<close>

definition slice :: "'a list \<Rightarrow> nat \<Rightarrow> nat \<Rightarrow> 'a list" where
  "slice xs st en = drop st (take en xs)"

fun sub_arrays :: "'a list \<Rightarrow> nat \<Rightarrow> nat list \<Rightarrow> 'a list list" where
  "sub_arrays ary st [] = []"
| "sub_arrays ary st (n # section_sizes) =
     slice ary st (st + n) # sub_arrays ary (st + n) section_sizes"

definition section_sizes :: "nat \<Rightarrow> nat \<Rightarrow> nat list" where
  "section_sizes Ntotal Nsections =
     replicate (Ntotal mod Nsections) (Ntotal div Nsections + 1) @
     replicate (Nsections - Ntotal mod Nsections) (Ntotal div Nsections)"

definition array_split :: "'a list \<Rightarrow> nat \<Rightarrow> exn + 'a list list" where
  "array_split ary Nsections =
     (if Nsections = 0 then Inl (ValueError ''number sections must be larger than 0.'')
      else Inr (sub_arrays ary 0 (section_sizes (length ary) Nsections)))"

text \<open>
  \<^verbatim>\<open>int(0.1 * sample_rate)\<close>: the product truncated. For an integer sample rate (below
  \<open>2^49\<close>, where the double product cannot round up to the next integer) this is
  \<open>sample_rate div 10\<close>.
\<close>

definition window_size :: "nat \<Rightarrow> nat" where
  "window_size sample_rate = sample_rate div 10"

text \<open>
  Line 80: \<^verbatim>\<open>len(audio_array) // window_size\<close> raises \<^verbatim>\<open>ZeroDivisionError\<close> when the window
  size is 0, and its value is the number of sections asked of \<^verbatim>\<open>array_split\<close>.
\<close>

definition windows :: "real list \<Rightarrow> nat \<Rightarrow> exn + real list list" where
  "windows audio_array sample_rate =
     (if window_size sample_rate = 0 then Inl ZeroDivisionError
      else array_split audio_array (length audio_array div window_size sample_rate))"

text \<open>
  Line 83: \<^verbatim>\<open>np.sqrt(np.mean(window**2))\<close>. (numpy's mean of an empty array is NaN; the
  sections of \<open>windows\<close> are never empty.)
\<close>

definition mean :: "real list \<Rightarrow> real" where
  "mean xs = sum_list xs / real (length xs)"

definition rms :: "real list \<Rightarrow> real" where
  "rms window = sqrt (mean (map (\<lambda>x. x\<^sup>2) window))"

text \<open>Lines 86-87: \<^verbatim>\<open>10 ** (dB / 20)\<close>.\<close>

definition db_to_amplitude :: "real \<Rightarrow> real" where
  "db_to_amplitude db = 10 powr (db / 20)"

text \<open>Line 90: the indices of the windows whose RMS lies strictly between the thresholds.\<close>

definition valid_windows :: "DerushWorker \<Rightarrow> real list \<Rightarrow> nat list" where
  "valid_windows self rms_values =
     map fst (filter (\<lambda>(i, r). db_to_amplitude (silence_thresh self) < r \<and>
                               r < db_to_amplitude (max_thresh self))
                (enumerate 0 rms_values))"

text \<open>
  Lines 100-109: the loop over \<^verbatim>\<open>valid_windows[1:]\<close> with the variables \<^verbatim>\<open>ranges\<close>,
  \<^verbatim>\<open>start_i\<close> and \<^verbatim>\<open>prev_i\<close>. A run that ends before the last one gets its start clamped
  to 0 and its end not clamped.
\<close>

fun group_windows ::
  "DerushWorker \<Rightarrow> nat list \<Rightarrow> range list \<Rightarrow> nat \<Rightarrow> nat \<Rightarrow> range list \<times> nat \<times> nat" where
  "group_windows self [] ranges start_i prev_i = (ranges, start_i, prev_i)"
| "group_windows self (i # rest) ranges start_i prev_i =
     (if int i - int prev_i > 1
      then (let end_i = prev_i;
                start_time = max 0 (real start_i * (1 / 10) - margin self);
                end_time = (real end_i + 1) * (1 / 10) + margin self
            in group_windows self rest
                 (if end_time - start_time \<ge> min_silence_len self
                  then ranges @ [(start_time, end_time)] else ranges)
                 i i)
      else group_windows self rest ranges start_i i)"

text \<open>Lines 92-118, from the valid window indices on.\<close>

definition ranges_of_valid ::
  "DerushWorker \<Rightarrow> nat list \<Rightarrow> real \<Rightarrow> range list" where
  "ranges_of_valid self valid duration =
     (case valid of
        [] \<Rightarrow> []
      | first # rest \<Rightarrow>
          (case group_windows self rest [] first first of
             (ranges, start_i, prev_i) \<Rightarrow>
               (let end_time = min ((real prev_i + 1) * (1 / 10) + margin self) duration;
                    start_time = max 0 (real start_i * (1 / 10) - margin self)
                in merge_overlapping_ranges self
                     (if end_time - start_time \<ge> min_silence_len self
                      then ranges @ [(start_time, end_time)] else ranges))))"

text \<open>The duration of the buffer in seconds, \<^verbatim>\<open>len(audio_array) / sample_rate\<close>.\<close>

definition buffer_duration :: "real list \<Rightarrow> nat \<Rightarrow> real" where
  "buffer_duration audio_array sample_rate = real (length audio_array) / real sample_rate"

definition detect_nonsilent :: "DerushWorker \<Rightarrow> real list \<Rightarrow> nat \<Rightarrow> exn + range list" where
  "detect_nonsilent self audio_array sample_rate =
     (case windows audio_array sample_rate of
        Inl e \<Rightarrow> Inl e
      | Inr ws \<Rightarrow>
          Inr (ranges_of_valid self (valid_windows self (map rms ws))
                 (buffer_duration audio_array sample_rate)))"

subsection \<open>Paths and names\<close>

text \<open>
  The functions of Python's \<^verbatim>\<open>posixpath\<close> the worker calls. \<^verbatim>\<open>str.rfind\<close> gives the index of
  the last occurrence, or -1.
\<close>

definition rfind :: "char \<Rightarrow> string \<Rightarrow> int" where
  "rfind c p =
     (if c \<in> set p
      then int (length p) - 1 - int (length (takeWhile (\<lambda>x. x \<noteq> c) (rev p)))
      else - 1)"

text \<open>
  The loop of \<^verbatim>\<open>genericpath._splitext\<close> that skips the leading dots of the file name:
  \<open>True\<close> when it finds a character other than a dot before \<open>dotIndex\<close> (the path is
  split there), \<open>False\<close> when it runs out.
\<close>

function skip_leading_dots :: "string \<Rightarrow> nat \<Rightarrow> nat \<Rightarrow> bool" where
  "skip_leading_dots p filenameIndex dotIndex =
     (if filenameIndex < dotIndex
      then (if slice p filenameIndex (filenameIndex + 1) \<noteq> ''.'' then True
            else skip_leading_dots p (filenameIndex + 1) dotIndex)
      else False)"
  by pat_completeness auto
termination
  by (relation "measure (\<lambda>(p, filenameIndex, dotIndex). dotIndex - filenameIndex)") auto

declare skip_leading_dots.simps [simp del]

definition splitext :: "string \<Rightarrow> string \<times> string" where
  "splitext p =
     (let sepIndex = rfind CHR ''/'' p;
          dotIndex = rfind CHR ''.'' p
      in if dotIndex > sepIndex \<and> skip_leading_dots p (nat (sepIndex + 1)) (nat dotIndex)
         then (take (nat dotIndex) p, drop (nat dotIndex) p)
         else (p, []))"

text \<open>\<^verbatim>\<open>posixpath.dirname\<close>: the head up to the last slash, without its trailing slashes
  unless it consists of slashes only.\<close>

definition rstrip_slash :: "string \<Rightarrow> string" where
  "rstrip_slash p = rev (dropWhile (\<lambda>x. x = CHR ''/'') (rev p))"

definition dirname :: "string \<Rightarrow> string" where
  "dirname p =
     (let head = take (nat (rfind CHR ''/'' p + 1)) p
      in if head \<noteq> [] \<and> head \<noteq> replicate (length head) CHR ''/''
         then rstrip_slash head else head)"

text \<open>\<^verbatim>\<open>posixpath.join\<close> of two components.\<close>

definition path_join :: "string \<Rightarrow> string \<Rightarrow> string" where
  "path_join a b =
     (if take 1 b = ''/'' then b
      else if a = [] \<or> last a = CHR ''/'' then a @ b
      else a @ ''/'' @ b)"

text \<open>The decimal digits of a number, and \<^verbatim>\<open>f'segment_{i:04d}.mp4'\<close>.\<close>

definition digit_char :: "nat \<Rightarrow> char" where
  "digit_char d = char_of (of_char CHR ''0'' + d)"

fun decimal :: "nat \<Rightarrow> string" where
  "decimal n = (if n < 10 then [digit_char n] else decimal (n div 10) @ [digit_char (n mod 10)])"

declare decimal.simps [simp del]

definition segment_name :: "nat \<Rightarrow> string" where
  "segment_name i =
     ''segment_'' @ replicate (4 - length (decimal i)) CHR ''0'' @ decimal i @ ''.mp4''"

text \<open>The suffix of line 238.\<close>

definition derushed_suffix :: string where
  "derushed_suffix = ''_derushed.mp4''"

definition output_path_of :: "string \<Rightarrow> string" where
  "output_path_of vp = fst (splitext vp) @ derushed_suffix"

subsection \<open>Messages\<close>

text \<open>The messages of the exceptions the worker raises, as the UTF-8 bytes of the source.\<close>

definition a_grave :: string where "a_grave = [CHR 0xC3, CHR 0xA0]"
definition e_acute :: string where "e_acute = [CHR 0xC3, CHR 0xA9]"
definition e_grave :: string where "e_grave = [CHR 0xC3, CHR 0xA8]"
definition E_acute :: string where "E_acute = [CHR 0xC3, CHR 0x89]"

definition msg_no_segment_to_concat :: string where
  "msg_no_segment_to_concat = ''Aucun segment '' @ a_grave @ '' concat'' @ e_acute @ ''ner''"

definition msg_no_segment_detected :: string where
  "msg_no_segment_detected =
     ''Aucun segment audio d'' @ e_acute @ ''tect'' @ e_acute @ '' avec ces param'' @ e_grave @ ''tres''"

definition msg_extract_failed :: string where
  "msg_extract_failed =
     E_acute @ ''chec de l'' @ [CHR 0x27] @ ''extraction du segment vid'' @ e_acute @ ''o avec FFmpeg''"

definition msg_concat_failed :: string where
  "msg_concat_failed =
     E_acute @ ''chec de la concat'' @ e_acute @ ''nation des segments avec FFmpeg''"

text \<open>
  \<^verbatim>\<open>f"Fichiers segments manquants: {missing_files[:5]}..."\<close>; the list is printed with each
  path between single quotes (Python escapes quotes and backslashes inside a path; such paths
  are printed here as they are).
\<close>

fun repr_list_body :: "string list \<Rightarrow> string" where
  "repr_list_body [] = []"
| "repr_list_body [f] = [CHR 0x27] @ f @ [CHR 0x27]"
| "repr_list_body (f # fs) = [CHR 0x27] @ f @ [CHR 0x27] @ '', '' @ repr_list_body fs"

definition msg_missing_files :: "string list \<Rightarrow> string" where
  "msg_missing_files missing_files =
     ''Fichiers segments manquants: ['' @ repr_list_body (take 5 missing_files) @ '']...''"

subsection \<open>The outside world and the state of a run\<close>

text \<open>
  \<^verbatim>\<open>sf.read\<close> gives a one-dimensional array for a mono file and an array of frames, one
  value per channel, otherwise.
\<close>

datatype ndarray = Mono "real list" | Frames "real list list"

text \<open>Lines 201-202: \<^verbatim>\<open>audio_data.mean(axis=1)\<close> when the array has more than one dimension.\<close>

definition to_mono :: "ndarray \<Rightarrow> real list" where
  "to_mono audio_data = (case audio_data of Mono xs \<Rightarrow> xs | Frames fs \<Rightarrow> map mean fs)"

text \<open>
  Every call that leaves the worker is answered by the world: it returns a value or raises.
  The answer may depend on the arguments and on the history of the calls made so far, so
  that the same call may be answered differently at different times. \<^verbatim>\<open>VideoFileClip\<close>
  answers with the duration of the clip; \<^verbatim>\<open>open_write\<close> is the creation of the manifest
  with all its lines; the two \<^verbatim>\<open>subprocess.run\<close> calls are told apart by their command.
\<close>

record world =
  os_mkdtemp :: "event list \<Rightarrow> exn + string"
  VideoFileClip :: "event list \<Rightarrow> string \<Rightarrow> exn + real"
  NamedTemporaryFile :: "event list \<Rightarrow> exn + string"
  tempfile_close :: "event list \<Rightarrow> exn + unit"
  write_audiofile :: "event list \<Rightarrow> string \<Rightarrow> exn + unit"
  sf_read :: "event list \<Rightarrow> string \<Rightarrow> exn + ndarray \<times> nat"
  video_close :: "event list \<Rightarrow> exn + unit"
  subprocess_extract :: "event list \<Rightarrow> string \<Rightarrow> string \<Rightarrow> real \<Rightarrow> real \<Rightarrow> exn + unit"
  path_exists :: "event list \<Rightarrow> string \<Rightarrow> bool"
  open_write :: "event list \<Rightarrow> string \<Rightarrow> string \<Rightarrow> exn + unit"
  subprocess_concat :: "event list \<Rightarrow> string \<Rightarrow> string \<Rightarrow> exn + unit"
  os_remove :: "event list \<Rightarrow> string \<Rightarrow> exn + unit"
  os_listdir :: "event list \<Rightarrow> string \<Rightarrow> exn + string list"
  os_rmdir :: "event list \<Rightarrow> string \<Rightarrow> exn + unit"

text \<open>
  The state of a run: the calls made so far, in order, \<^verbatim>\<open>self.temp_dir\<close>, and the local
  variable \<^verbatim>\<open>temp_audio_path\<close> of \<^verbatim>\<open>run\<close>, which its exception handler reads.
\<close>

record pstate =
  trace :: "event list"
  temp_dir :: "string option"
  temp_audio_path :: "string option"

definition init_state :: pstate where
  "init_state = \<lparr> trace = [], temp_dir = None, temp_audio_path = None \<rparr>"

type_synonym 'a io = "pstate \<Rightarrow> (exn + 'a) \<times> pstate"

definition io_return :: "'a \<Rightarrow> 'a io" where
  "io_return x st = (Inr x, st)"

definition io_raise :: "exn \<Rightarrow> 'a io" where
  "io_raise e st = (Inl e, st)"

definition io_bind :: "'a io \<Rightarrow> ('a \<Rightarrow> 'b io) \<Rightarrow> 'b io" where
  "io_bind m f st = (case m st of (Inl e, st') \<Rightarrow> (Inl e, st') | (Inr x, st') \<Rightarrow> f x st')"

text \<open>\<^verbatim>\<open>try: m except ... as e: h(e)\<close>.\<close>

definition io_try :: "'a io \<Rightarrow> (exn \<Rightarrow> 'a io) \<Rightarrow> 'a io" where
  "io_try m h st = (case m st of (Inl e, st') \<Rightarrow> h e st' | (Inr x, st') \<Rightarrow> (Inr x, st'))"

text \<open>A call into the world: it is recorded, and answered from the history before it.\<close>

definition io_call :: "event \<Rightarrow> (event list \<Rightarrow> exn + 'a) \<Rightarrow> 'a io" where
  "io_call ev answer st = (answer (trace st), st\<lparr>trace := trace st @ [ev]\<rparr>)"

definition io_lift :: "exn + 'a \<Rightarrow> 'a io" where
  "io_lift r st = (r, st)"

definition get_temp_dir :: "string option io" where
  "get_temp_dir st = (Inr (temp_dir st), st)"

definition set_temp_dir :: "string option \<Rightarrow> unit io" where
  "set_temp_dir d st = (Inr (), st\<lparr>temp_dir := d\<rparr>)"

definition get_temp_audio_path :: "string option io" where
  "get_temp_audio_path st = (Inr (temp_audio_path st), st)"

definition set_temp_audio_path :: "string option \<Rightarrow> unit io" where
  "set_temp_audio_path d st = (Inr (), st\<lparr>temp_audio_path := d\<rparr>)"

text \<open>\<^verbatim>\<open>os.path.exists\<close> never raises.\<close>

definition exists_path :: "world \<Rightarrow> string \<Rightarrow> bool io" where
  "exists_path world p = io_call (EvExists p) (\<lambda>tr. Inr (path_exists world tr p))"

text \<open>The truth value of a path that may be \<^verbatim>\<open>None\<close>: neither \<^verbatim>\<open>None\<close> nor empty.\<close>

definition truthy :: "string option \<Rightarrow> bool" where
  "truthy p = (case p of None \<Rightarrow> False | Some s \<Rightarrow> s \<noteq> [])"

subsection \<open>The methods of the worker\<close>

definition update_progress :: "DerushWorker \<Rightarrow> int \<Rightarrow> unit io" where
  "update_progress self v =
     (case progress_callback self of
        None \<Rightarrow> io_return ()
      | Some callback \<Rightarrow> io_call (EvProgress v) (\<lambda>tr. callback tr v))"

definition create_temp_directory :: "world \<Rightarrow> string io" where
  "create_temp_directory world =
     io_bind (io_call EvMkdtemp (os_mkdtemp world)) (\<lambda>d.
     io_bind (set_temp_dir (Some d)) (\<lambda>_.
     io_return d))"

text \<open>Lines 42-46: each file is removed under its own \<^verbatim>\<open>try\<close> with a bare \<^verbatim>\<open>except\<close>.\<close>

fun remove_files :: "world \<Rightarrow> string \<Rightarrow> string list \<Rightarrow> unit io" where
  "remove_files world dir [] = io_return ()"
| "remove_files world dir (file # files) =
     io_bind (io_try (io_call (EvRemove (path_join dir file)) (\<lambda>tr. os_remove world tr (path_join dir file)))
                (\<lambda>e. io_return ())) (\<lambda>_.
     remove_files world dir files)"

text \<open>Lines 39-50. \<^verbatim>\<open>os.listdir\<close> is outside every \<^verbatim>\<open>try\<close> of the method.\<close>

definition cleanup_temp_directory :: "world \<Rightarrow> unit io" where
  "cleanup_temp_directory world =
     io_bind get_temp_dir (\<lambda>d.
     if \<not> truthy d then io_return ()
     else io_bind (exists_path world (the d)) (\<lambda>ex.
          if \<not> ex then io_return ()
          else io_bind (io_call (EvListdir (the d)) (\<lambda>tr. os_listdir world tr (the d))) (\<lambda>files.
               io_bind (remove_files world (the d) files) (\<lambda>_.
               io_try (io_call (EvRmdir (the d)) (\<lambda>tr. os_rmdir world tr (the d)))
                 (\<lambda>e. io_return ())))))"

text \<open>
  Lines 120-140. The event of the call records the input, the output, the start and the
  length \<^verbatim>\<open>end_time - start_time\<close> (the command prints both with three decimals).
  \<open>EvExtractSegment\<close> marks the entry of the method.
\<close>

text \<open>
  The handlers of both \<^verbatim>\<open>subprocess.run\<close> calls: \<^verbatim>\<open>CalledProcessError\<close> and
  \<^verbatim>\<open>FileNotFoundError\<close> give \<^verbatim>\<open>False\<close>, any other exception goes on.
\<close>

definition subprocess_handler :: "exn \<Rightarrow> bool io" where
  "subprocess_handler e =
     (case e of
        CalledProcessError \<Rightarrow> io_return False
      | FileNotFoundError m \<Rightarrow> io_return False
      | _ \<Rightarrow> io_raise e)"

definition extract_segment_ffmpeg ::
  "world \<Rightarrow> string \<Rightarrow> string \<Rightarrow> real \<Rightarrow> real \<Rightarrow> bool io" where
  "extract_segment_ffmpeg world input_file output_file start_time end_time =
     io_bind (io_call (EvExtractSegment input_file output_file start_time end_time)
                (\<lambda>tr. Inr ())) (\<lambda>_.
     io_try
       (io_bind (io_call (EvFfmpegExtract input_file output_file start_time (end_time - start_time))
                   (\<lambda>tr. subprocess_extract world tr input_file output_file start_time
                            (end_time - start_time))) (\<lambda>_.
        io_return True))
       subprocess_handler)"

text \<open>Line 148: the segment files that do not exist, asked one by one in list order.\<close>

fun missing_files :: "world \<Rightarrow> string list \<Rightarrow> string list io" where
  "missing_files world [] = io_return []"
| "missing_files world (f # fs) =
     io_bind (exists_path world f) (\<lambda>ex.
     io_bind (missing_files world fs) (\<lambda>ms.
     io_return (if ex then ms else f # ms)))"

text \<open>Lines 154-156: one line \<^verbatim>\<open>file '<segment>'\<close> per segment.\<close>

definition manifest :: "string list \<Rightarrow> string" where
  "manifest segment_files =
     concat (map (\<lambda>segment. ''file '' @ [CHR 0x27] @ segment @ [CHR 0x27, CHR 0x0A]) segment_files)"

text \<open>
  Lines 142-175. \<open>EvConcatSegments\<close> marks the entry of the method. \<^verbatim>\<open>os.path.join\<close> raises
  \<^verbatim>\<open>TypeError\<close> when \<^verbatim>\<open>self.temp_dir\<close> is \<^verbatim>\<open>None\<close>.
\<close>

definition concat_segments_ffmpeg :: "world \<Rightarrow> string list \<Rightarrow> string \<Rightarrow> bool io" where
  "concat_segments_ffmpeg world segment_files output_file =
     io_bind (io_call (EvConcatSegments segment_files output_file) (\<lambda>tr. Inr ())) (\<lambda>_.
     if segment_files = [] then io_raise (ValueError msg_no_segment_to_concat)
     else io_bind (missing_files world segment_files) (\<lambda>missing.
          if missing \<noteq> [] then io_raise (FileNotFoundError (msg_missing_files missing))
          else io_bind get_temp_dir (\<lambda>d.
               case d of
                 None \<Rightarrow> io_raise TypeError
               | Some dir \<Rightarrow>
                   io_bind (io_call (EvWriteManifest (path_join dir ''segments.txt'')
                                       (manifest segment_files))
                              (\<lambda>tr. open_write world tr (path_join dir ''segments.txt'')
                                       (manifest segment_files))) (\<lambda>_.
                   io_try
                     (io_bind (io_call (EvFfmpegConcat (path_join dir ''segments.txt'') output_file)
                                 (\<lambda>tr. subprocess_concat world tr
                                          (path_join dir ''segments.txt'') output_file)) (\<lambda>_.
                      io_return True))
                     subprocess_handler))))"

subsection \<open>\<^verbatim>\<open>run\<close>\<close>

text \<open>
  Lines 182-202: the workspace, the video, the temporary audio file and its samples. The
  result is the workspace, the duration of the video, the mono samples and the sample rate.
\<close>

definition run_prepare :: "world \<Rightarrow> DerushWorker \<Rightarrow> (string \<times> real \<times> real list \<times> nat) io" where
  "run_prepare world self =
     io_bind (create_temp_directory world) (\<lambda>dir.
     io_bind (update_progress self 5) (\<lambda>_.
     io_bind (io_call (EvVideoFileClip (video_path self))
                (\<lambda>tr. VideoFileClip world tr (video_path self))) (\<lambda>duration.
     io_bind (update_progress self 10) (\<lambda>_.
     io_bind (io_call EvNamedTemporaryFile (NamedTemporaryFile world)) (\<lambda>name.
     io_bind (set_temp_audio_path (Some name)) (\<lambda>_.
     io_bind (io_call EvTempfileClose (tempfile_close world)) (\<lambda>_.
     io_bind (io_call (EvWriteAudiofile name) (\<lambda>tr. write_audiofile world tr name)) (\<lambda>_.
     io_bind (update_progress self 25) (\<lambda>_.
     io_bind (io_call (EvSfRead name) (\<lambda>tr. sf_read world tr name)) (\<lambda>(audio_data, sample_rate).
     io_return (dir, duration, to_mono audio_data, sample_rate)))))))))))"

text \<open>
  Lines 217-235: the loop over \<^verbatim>\<open>enumerate(nonsilent_ranges)\<close>, with the index \<open>i\<close>, the
  number \<open>n\<close> of ranges and the list \<^verbatim>\<open>segment_files\<close>. \<^verbatim>\<open>int(progress)\<close> truncates.
\<close>

fun extract_loop ::
  "world \<Rightarrow> DerushWorker \<Rightarrow> string \<Rightarrow> real \<Rightarrow> nat \<Rightarrow> nat \<Rightarrow> range list \<Rightarrow> string list
     \<Rightarrow> string list io" where
  "extract_loop world self dir duration n i [] segment_files = io_return segment_files"
| "extract_loop world self dir duration n i ((start, end) # rest) segment_files =
     io_bind (extract_segment_ffmpeg world (video_path self) (path_join dir (segment_name i))
                (max 0 start) (min end duration)) (\<lambda>success.
     if \<not> success then io_raise (RuntimeError msg_extract_failed)
     else io_bind (update_progress self \<lfloor>30 + (real (i + 1) / real n) * 50\<rfloor>) (\<lambda>_.
          extract_loop world self dir duration n (i + 1) rest
            (segment_files @ [path_join dir (segment_name i)])))"

text \<open>Lines 248-253: the cleanup of the successful path.\<close>

definition cleanup_after_success :: "world \<Rightarrow> unit io" where
  "cleanup_after_success world =
     io_bind get_temp_audio_path (\<lambda>p.
     io_bind (if \<not> truthy p then io_return ()
              else io_bind (exists_path world (the p)) (\<lambda>ex.
                   if \<not> ex then io_return ()
                   else io_try (io_call (EvRemove (the p)) (\<lambda>tr. os_remove world tr (the p)))
                          (\<lambda>e. io_return ()))) (\<lambda>_.
     cleanup_temp_directory world))"

text \<open>Lines 237-257: concatenation, cleanup, and the output path.\<close>

definition run_finish :: "world \<Rightarrow> DerushWorker \<Rightarrow> string list \<Rightarrow> string io" where
  "run_finish world self segment_files =
     io_bind (concat_segments_ffmpeg world segment_files (output_path_of (video_path self)))
       (\<lambda>success.
     if \<not> success then io_raise (RuntimeError msg_concat_failed)
     else io_bind (update_progress self 95) (\<lambda>_.
          io_bind (cleanup_after_success world) (\<lambda>_.
          io_bind (update_progress self 100) (\<lambda>_.
          io_return (output_path_of (video_path self))))))"

text \<open>Lines 204-235: the analysis and the extraction of the segments.\<close>

definition run_segments ::
  "world \<Rightarrow> DerushWorker \<Rightarrow> string \<Rightarrow> real \<Rightarrow> real list \<Rightarrow> nat \<Rightarrow> string list io" where
  "run_segments world self dir duration audio_data sample_rate =
     io_bind (io_lift (detect_nonsilent self audio_data sample_rate)) (\<lambda>nonsilent_ranges.
     if nonsilent_ranges = [] then io_raise (ValueError msg_no_segment_detected)
     else io_bind (io_call EvVideoClose (video_close world)) (\<lambda>_.
          io_bind (update_progress self 30) (\<lambda>_.
          extract_loop world self dir duration (length nonsilent_ranges) 0 nonsilent_ranges [])))"

definition run_body :: "world \<Rightarrow> DerushWorker \<Rightarrow> string io" where
  "run_body world self =
     io_bind (run_prepare world self) (\<lambda>(dir, duration, audio_data, sample_rate).
     io_bind (run_segments world self dir duration audio_data sample_rate) (\<lambda>segment_files.
     run_finish world self segment_files))"

text \<open>
  Lines 259-268: the handler of \<^verbatim>\<open>run\<close>. The removal of the audio file and the cleanup of
  the workspace are under one \<^verbatim>\<open>try\<close>; whatever happens there, \<open>e\<close> is raised again.
\<close>

definition run_handler :: "world \<Rightarrow> exn \<Rightarrow> string io" where
  "run_handler world e =
     io_bind (io_try
                (io_bind get_temp_audio_path (\<lambda>p.
                 io_bind (if \<not> truthy p then io_return ()
                          else io_bind (exists_path world (the p)) (\<lambda>ex.
                               if \<not> ex then io_return ()
                               else io_call (EvRemove (the p)) (\<lambda>tr. os_remove world tr (the p))))
                   (\<lambda>_.
                 cleanup_temp_directory world)))
                (\<lambda>cleanup_error. io_return ())) (\<lambda>_.
     io_raise e)"

definition run :: "world \<Rightarrow> DerushWorker \<Rightarrow> string io" where
  "run world self = io_try (run_body world self) (run_handler world)"

subsection \<open>Observations on a run\<close>

text \<open>
  The calls of the segment extractor and of the concatenator: the entry of either method,
  the transcoder processes they start, and the manifest the concatenator writes.
\<close>

fun is_transcoder_event :: "event \<Rightarrow> bool" where
  "is_transcoder_event (EvExtractSegment input_file output_file s e) = True"
| "is_transcoder_event (EvFfmpegExtract input_file output_file s t) = True"
| "is_transcoder_event (EvConcatSegments segment_files output_file) = True"
| "is_transcoder_event (EvWriteManifest list_file content) = True"
| "is_transcoder_event (EvFfmpegConcat list_file output_file) = True"
| "is_transcoder_event ev = False"

definition transcoder_events :: "event list \<Rightarrow> event list" where
  "transcoder_events tr = filter is_transcoder_event tr"

text \<open>The attempts to remove the workspace: listing it and removing the directory.\<close>

fun is_workspace_removal :: "event \<Rightarrow> bool" where
  "is_workspace_removal (EvListdir d) = True"
| "is_workspace_removal (EvRmdir d) = True"
| "is_workspace_removal ev = False"

subsection \<open>Sample inputs\<close>

text \<open>
  At 44100 Hz a window has 4410 samples. \<open>burst_audio\<close> is 0.3 s long: a window at
  amplitude 0.1, a silent window, a window at amplitude 0.1. \<open>silent_audio\<close> is 0.3 s of
  zeros.
\<close>

definition burst_audio :: "real list" where
  "burst_audio = concat [replicate 4410 (1 / 10), replicate 4410 0, replicate 4410 (1 / 10)]"

definition silent_audio :: "real list" where
  "silent_audio = concat [replicate 4410 0, replicate 4410 0, replicate 4410 0]"

text \<open>
  A world in which every call succeeds: the video lasts 0.3 s, \<^verbatim>\<open>sf.read\<close> gives the mono
  samples \<open>audio\<close> at 44100 Hz, every path exists, and the workspace lists one segment and
  the manifest.
\<close>

definition sample_world :: "real list \<Rightarrow> world" where
  "sample_world audio =
     \<lparr> os_mkdtemp = (\<lambda>tr. Inr ''/tmp/derusher_k3'') ,
       VideoFileClip = (\<lambda>tr p. Inr (3 / 10)),
       NamedTemporaryFile = (\<lambda>tr. Inr ''/tmp/tmpq7.wav''),
       tempfile_close = (\<lambda>tr. Inr ()),
       write_audiofile = (\<lambda>tr p. Inr ()),
       sf_read = (\<lambda>tr p. Inr (Mono audio, 44100)),
       video_close = (\<lambda>tr. Inr ()),
       subprocess_extract = (\<lambda>tr i out s t. Inr ()),
       path_exists = (\<lambda>tr p. True),
       open_write = (\<lambda>tr p c. Inr ()),
       subprocess_concat = (\<lambda>tr l out. Inr ()),
       os_remove = (\<lambda>tr p. Inr ()),
       os_listdir = (\<lambda>tr p. Inr [''segment_0000.mp4'', ''segments.txt'']),
       os_rmdir = (\<lambda>tr p. Inr ()) \<rparr>"

text \<open>
  The same world, except that the transcoder fails on every segment and that the temporary
  audio file cannot be removed (\<^verbatim>\<open>os.remove\<close> raises \<^verbatim>\<open>PermissionError\<close>, as it does for a
  file that is still open on Windows).
\<close>

definition locked_audio_world :: world where
  "locked_audio_world =
     (sample_world burst_audio)
       \<lparr> subprocess_extract := (\<lambda>tr i out s t. Inl CalledProcessError),
         os_remove := (\<lambda>tr p. if p = ''/tmp/tmpq7.wav''
                                then Inl (OtherException ''PermissionError'') else Inr ()) \<rparr>"

text \<open>
  The same world, except that only the temporary audio file cannot be removed: the
  transcoder succeeds.
\<close>

definition unremovable_audio_world :: world where
  "unremovable_audio_world =
     (sample_world burst_audio)
       \<lparr> os_remove := (\<lambda>tr p. if p = ''/tmp/tmpq7.wav''
                                then Inl (OtherException ''PermissionError'') else Inr ()) \<rparr>"

text \<open>An action is quiet when it never adds a call of the extractor or of the concatenator.\<close>

definition quiet :: "'a io \<Rightarrow> bool" where
  "quiet m = (\<forall>st. transcoder_events (trace (snd (m st))) = transcoder_events (trace st))"

section \<open>Properties\<close>

subsection \<open>The range merger\<close>

declare merge_sweep.simps(2) [simp del]

lemma merge_sweep_acc:
  "merge_sweep g xs merged cs ce = merged @ merge_sweep g xs [] cs ce"
proof (induction xs arbitrary: merged cs ce)
  case Nil
  show ?case by simp
next
  case (Cons x xs)
  obtain s e where x: "x = (s, e)" by (cases x)
  show ?case
  proof (cases "s \<le> ce + g")
    case True
    then show ?thesis using Cons.IH [of merged cs "max ce e"] by (simp add: x merge_sweep.simps(2))
  next
    case False
    then show ?thesis
      using Cons.IH [of "merged @ [(cs, ce)]" s e] Cons.IH [of "[(cs, ce)]" s e]
      by (simp add: x merge_sweep.simps(2))
  qed
qed

lemma merge_sweep_Cons:
  "merge_sweep g ((s, e) # rest) [] cs ce =
     (if s \<le> ce + g then merge_sweep g rest [] cs (max ce e)
      else (cs, ce) # merge_sweep g rest [] s e)"
  using merge_sweep_acc [of g rest "[(cs, ce)]" s e] by (simp add: merge_sweep.simps(2))

lemma merge_sweep_starts:
  "fst ` set (merge_sweep g xs [] cs ce) \<subseteq> insert cs (fst ` set xs)"
proof (induction xs arbitrary: cs ce)
  case Nil
  show ?case by simp
next
  case (Cons x xs)
  obtain s e where x: "x = (s, e)" by (cases x)
  show ?case
    using Cons.IH [of cs "max ce e"] Cons.IH [of s e]
    by (auto simp add: x merge_sweep_Cons)
qed

lemma merge_sweep_sorted:
  "sorted (map fst xs) \<Longrightarrow> \<forall>x\<in>set xs. cs \<le> fst x \<Longrightarrow>
     sorted (map fst (merge_sweep g xs [] cs ce)) \<and>
     sorted_wrt (separated g) (merge_sweep g xs [] cs ce)"
proof (induction xs arbitrary: cs ce)
  case Nil
  show ?case by simp
next
  case (Cons x xs)
  obtain s e where x: "x = (s, e)" by (cases x)
  from Cons.prems have srt: "sorted (map fst xs)" and ge: "\<forall>y\<in>set xs. s \<le> fst y"
    and cs: "cs \<le> s" "\<forall>y\<in>set xs. cs \<le> fst y"
    by (auto simp add: x)
  show ?case
  proof (cases "s \<le> ce + g")
    case True
    then show ?thesis using Cons.IH [OF srt cs(2), of "max ce e"] by (simp add: x merge_sweep_Cons)
  next
    case False
    have starts: "\<forall>r\<in>set (merge_sweep g xs [] s e). s \<le> fst r"
      using merge_sweep_starts [of g xs s e] ge by fastforce
    from False starts cs show ?thesis
      using Cons.IH [OF srt ge, of e]
      by (auto simp add: x merge_sweep_Cons separated_def)
  qed
qed

lemma merge_sweep_fixed:
  "\<forall>x\<in>set xs. ce + g < fst x \<Longrightarrow> sorted_wrt (separated g) xs \<Longrightarrow>
     merge_sweep g xs [] cs ce = (cs, ce) # xs"
proof (induction xs arbitrary: cs ce)
  case Nil
  show ?case by simp
next
  case (Cons x xs)
  obtain s e where x: "x = (s, e)" by (cases x)
  from Cons.prems have "\<not> s \<le> ce + g" by (simp add: x)
  moreover have "merge_sweep g xs [] s e = (s, e) # xs"
    using Cons.prems by (intro Cons.IH) (auto simp add: x separated_def)
  ultimately show ?case by (simp add: x merge_sweep_Cons)
qed

lemma merge_sorted_separated:
  "sorted (map fst (merge_overlapping_ranges self ranges)) \<and>
   sorted_wrt (separated (min_segment_gap self)) (merge_overlapping_ranges self ranges)"
proof (cases "sort_key fst ranges")
  case Nil
  then show ?thesis by (simp add: merge_overlapping_ranges_def)
next
  case (Cons x xs)
  obtain cs ce where x: "x = (cs, ce)" by (cases x)
  have "sorted (map fst (sort_key fst ranges))" by simp
  then have "sorted (map fst xs)" "\<forall>y\<in>set xs. cs \<le> fst y"
    by (auto simp add: Cons x)
  from merge_sweep_sorted [OF this] show ?thesis
    by (simp add: merge_overlapping_ranges_def Cons x)
qed

text \<open>
  Claim C4. The range merger is idempotent: for every list of ranges, merging the output of
  \<^verbatim>\<open>merge_overlapping_ranges\<close> again gives exactly the same list of ranges.
\<close>

theorem merge_idempotent:
  "merge_overlapping_ranges self (merge_overlapping_ranges self ranges) =
   merge_overlapping_ranges self ranges"
proof (cases "merge_overlapping_ranges self ranges")
  case Nil
  then show ?thesis by (simp add: merge_overlapping_ranges_def)
next
  case (Cons x xs)
  obtain cs ce where x: "x = (cs, ce)" by (cases x)
  from merge_sorted_separated [of self ranges]
  have srt: "sorted (map fst ((cs, ce) # xs))"
    and sep: "sorted_wrt (separated (min_segment_gap self)) ((cs, ce) # xs)"
    by (simp_all add: Cons x)
  have id: "sort_key fst ((cs, ce) # xs) = (cs, ce) # xs"
    using srt by (rule sort_key_id_if_sorted)
  have "merge_sweep (min_segment_gap self) xs [] cs ce = (cs, ce) # xs"
    using sep by (intro merge_sweep_fixed) (auto simp add: separated_def)
  then show ?thesis
    unfolding Cons x
    by (simp only: merge_overlapping_ranges_def id list.case prod.case) simp
qed

lemma init_gap: "min_segment_gap (DerushWorker_init vp a b c d) = 2 / 10"
  by (simp add: DerushWorker_init_def)

text \<open>
  Claim C3. For every list of ranges, the output of \<^verbatim>\<open>merge_overlapping_ranges\<close> (with the
  gap of 0.2 s that \<^verbatim>\<open>__init__\<close> sets) is sorted ascending by start time, every range starts
  more than 0.2 s after the end of the one before it, and so every range ends before any
  later one starts: the output ranges are mutually disjoint.
\<close>

theorem merge_output_sorted_and_separated:
  assumes gap: "min_segment_gap self = 2 / 10"
  shows "sorted (map fst (merge_overlapping_ranges self ranges)) \<and>
    (\<forall>i. Suc i < length (merge_overlapping_ranges self ranges) \<longrightarrow>
       fst (merge_overlapping_ranges self ranges ! Suc i)
         > snd (merge_overlapping_ranges self ranges ! i) + 2 / 10) \<and>
    (\<forall>i j. i < j \<and> j < length (merge_overlapping_ranges self ranges) \<longrightarrow>
       snd (merge_overlapping_ranges self ranges ! i)
         < fst (merge_overlapping_ranges self ranges ! j))"
proof -
  let ?out = "merge_overlapping_ranges self ranges"
  have sep: "sorted_wrt (separated (2 / 10)) ?out"
    using merge_sorted_separated [of self ranges] by (simp add: gap)
  have pair: "snd (?out ! i) + 2 / 10 < fst (?out ! j)" if "i < j" "j < length ?out" for i j
    using sorted_wrt_nth_less [OF sep that] by (simp add: separated_def)
  have "fst (?out ! Suc i) > snd (?out ! i) + 2 / 10" if "Suc i < length ?out" for i
    using pair [of i "Suc i"] that by simp
  moreover have "snd (?out ! i) < fst (?out ! j)" if "i < j \<and> j < length ?out" for i j
    using pair [of i j] that by simp
  ultimately show ?thesis
    using merge_sorted_separated [of self ranges] by blast
qed

text \<open>
  The ranges (3, 4), (1, 1.3), (1.35, 1.6) merge into (1, 1.6), (3, 4).
\<close>

theorem merge_output_sorted_and_separated_witness:
  "min_segment_gap (default_worker ''v.mp4'') = 2 / 10 \<and>
   merge_overlapping_ranges (default_worker ''v.mp4'') [(3, 4), (1, 13 / 10), (27 / 20, 16 / 10)]
     = [(1, 16 / 10), (3, 4)] \<and>
   sorted (map fst (merge_overlapping_ranges (default_worker ''v.mp4'')
     [(3, 4), (1, 13 / 10), (27 / 20, 16 / 10)])) \<and>
   fst (merge_overlapping_ranges (default_worker ''v.mp4'')
     [(3, 4), (1, 13 / 10), (27 / 20, 16 / 10)] ! Suc 0)
     > snd (merge_overlapping_ranges (default_worker ''v.mp4'')
     [(3, 4), (1, 13 / 10), (27 / 20, 16 / 10)] ! 0) + 2 / 10"
proof -
  have g: "min_segment_gap (default_worker ''v.mp4'') = 2 / 10"
    by (simp add: default_worker_def DerushWorker_init_def)
  have ev: "merge_overlapping_ranges (default_worker ''v.mp4'')
      [(3, 4), (1, 13 / 10), (27 / 20, 16 / 10)] = [(1, 16 / 10), (3, 4)]"
    by (simp add: merge_overlapping_ranges_def g merge_sweep.simps(2))
  from merge_output_sorted_and_separated [OF g, of "[(3, 4), (1, 13 / 10), (27 / 20, 16 / 10)]"]
  show ?thesis using g ev by simp
qed

text \<open>
  Claim C5 as stated fails when the second range lies before the first: for
  \<open>A1 = (10, 11)\<close> and \<open>A2 = (0, 1)\<close> the difference \<open>A2.start - A1.end\<close> is -11, yet the
  output keeps both ranges and neither covers the two inputs.
\<close>

theorem merge_two_unordered_counterexample:
  "(0::real) - 11 \<le> 2 / 10 \<and>
   merge_overlapping_ranges (default_worker ''v.mp4'') [(10, 11), (0, 1)] = [(0, 1), (10, 11)] \<and>
   \<not> covers (0, 1) (10, 11) (0, 1) \<and> \<not> covers (10, 11) (10, 11) (0, 1)"
  by (simp add: merge_overlapping_ranges_def default_worker_def DerushWorker_init_def
      covers_def merge_sweep.simps(2))

text \<open>
  Claim C5, amended. For an input of exactly two ranges \<open>A1\<close> and \<open>A2\<close> of which \<open>A1\<close> is
  the one the sort puts first (\<open>A1\<close> starts before \<open>A2\<close>, or they start together and \<open>A1\<close>
  is given first), with \<open>A2.start - A1.end \<le> 0.2\<close>, the output of the merger is the single
  range from \<open>A1.start\<close> to the larger of the two ends, which covers both inputs.
\<close>

theorem merge_two_close_ranges:
  assumes gap: "min_segment_gap self = 2 / 10"
    and order: "fst A1 < fst A2 \<and> (ranges = [A1, A2] \<or> ranges = [A2, A1]) \<or>
                fst A1 = fst A2 \<and> ranges = [A1, A2]"
    and close: "fst A2 - snd A1 \<le> 2 / 10"
  shows "merge_overlapping_ranges self ranges = [(fst A1, max (snd A1) (snd A2))] \<and>
         covers (fst A1, max (snd A1) (snd A2)) A1 A2"
proof -
  have srt: "sort_key fst ranges = [A1, A2]"
    using order by auto
  have ne: "ranges \<noteq> []" using order by auto
  have "merge_sweep (2 / 10) [A2] [] (fst A1) (snd A1) = [(fst A1, max (snd A1) (snd A2))]"
    using close by (cases A2) (simp add: merge_sweep.simps(2))
  then have "merge_overlapping_ranges self ranges = [(fst A1, max (snd A1) (snd A2))]"
    using ne by (cases A1) (simp add: merge_overlapping_ranges_def srt gap)
  moreover have "covers (fst A1, max (snd A1) (snd A2)) A1 A2"
    using order by (auto simp add: covers_def)
  ultimately show ?thesis by simp
qed

text \<open>
  The two bursts (1, 1.3) and (1.35, 1.6), given in reverse order, merge into (1, 1.6).
\<close>

theorem merge_two_close_ranges_witness:
  "min_segment_gap (default_worker ''v.mp4'') = 2 / 10 \<and>
   fst (1::real, 13 / 10 :: real) < fst (27 / 20 :: real, 16 / 10 :: real) \<and>
   fst (27 / 20 :: real, 16 / 10 :: real) - snd (1::real, 13 / 10 :: real) \<le> 2 / 10 \<and>
   merge_overlapping_ranges (default_worker ''v.mp4'') [(27 / 20, 16 / 10), (1, 13 / 10)]
     = [(1, 16 / 10)] \<and>
   covers (1, 16 / 10) (1, 13 / 10) (27 / 20, 16 / 10)"
proof -
  have g: "min_segment_gap (default_worker ''v.mp4'') = 2 / 10"
    by (simp add: default_worker_def DerushWorker_init_def)
  from merge_two_close_ranges [OF g, of "(1, 13 / 10)" "(27 / 20, 16 / 10)"
      "[(27 / 20, 16 / 10), (1, 13 / 10)]"]
  show ?thesis using g by simp
qed

subsection \<open>The windows of the classifier\<close>

lemma slice_append:
  "slice xs a b @ slice xs b c = slice xs a c" if "a \<le> b" "b \<le> c"
proof -
  have "take c xs = take b xs @ take (c - b) (drop b xs)"
    using that by (metis le_add_diff_inverse take_add)
  moreover have "slice xs b c = take (c - b) (drop b xs)"
    by (simp add: slice_def drop_take)
  ultimately show ?thesis
    using that by (simp add: slice_def min_def)
qed

lemma length_sub_arrays: "length (sub_arrays ary st sizes) = length sizes"
  by (induction sizes arbitrary: st) auto

lemma concat_sub_arrays:
  "concat (sub_arrays ary st sizes) = slice ary st (st + sum_list sizes)"
proof (induction sizes arbitrary: st)
  case Nil
  show ?case by (simp add: slice_def)
next
  case (Cons n sizes)
  show ?case
    using slice_append [of st "st + n" "st + n + sum_list sizes" ary]
    by (simp add: Cons.IH add.assoc)
qed

lemma lengths_sub_arrays:
  "st + sum_list sizes \<le> length ary \<Longrightarrow> map length (sub_arrays ary st sizes) = sizes"
proof (induction sizes arbitrary: st)
  case Nil
  show ?case by simp
next
  case (Cons n sizes)
  then show ?case by (simp add: slice_def add.assoc)
qed

lemma sum_list_section_sizes:
  "0 < N \<Longrightarrow> sum_list (section_sizes L N) = L"
proof -
  assume N: "0 < N"
  have "L mod N \<le> N" using N by (simp add: less_imp_le)
  then have "sum_list (section_sizes L N) = (L mod N) * (L div N + 1) + (N - L mod N) * (L div N)"
    by (simp add: section_sizes_def sum_list_replicate)
  also have "\<dots> = L mod N + N * (L div N)"
    using \<open>L mod N \<le> N\<close> by (simp add: algebra_simps flip: add_mult_distrib)
  finally show ?thesis by simp
qed

lemma length_section_sizes: "0 < N \<Longrightarrow> length (section_sizes L N) = N"
  by (simp add: section_sizes_def less_imp_le)

lemma set_section_sizes:
  "set (section_sizes L N) \<subseteq> {L div N, L div N + 1}"
  by (auto simp add: section_sizes_def)

lemma section_sizes_exact:
  "0 < k \<Longrightarrow> 0 < q \<Longrightarrow> section_sizes (q * k) q = replicate q k"
  by (simp add: section_sizes_def)

lemma div_div_ge:
  fixes L k :: nat
  assumes "0 < k" "k \<le> L"
  shows "k \<le> L div (L div k)"
proof -
  have pos: "0 < L div k" using assms by (simp add: div_greater_zero_iff)
  have "(L div k) * k \<le> L" by simp
  then show ?thesis using pos by (simp add: less_eq_div_iff_mult_less_eq mult.commute)
qed

lemma array_split_props:
  assumes N: "0 < N"
  shows "\<exists>ws. array_split ary N = Inr ws \<and> length ws = N \<and> concat ws = ary \<and>
           set (map length ws) \<subseteq> {length ary div N, length ary div N + 1}"
proof -
  let ?sz = "section_sizes (length ary) N"
  let ?ws = "sub_arrays ary 0 ?sz"
  have "array_split ary N = Inr ?ws" using N by (simp add: array_split_def)
  moreover have "length ?ws = N" using N by (simp add: length_sub_arrays length_section_sizes)
  moreover have "concat ?ws = ary"
    using N by (simp add: concat_sub_arrays sum_list_section_sizes slice_def)
  moreover have "map length ?ws = ?sz"
    using N by (intro lengths_sub_arrays) (simp add: sum_list_section_sizes)
  then have "set (map length ?ws) \<subseteq> {length ary div N, length ary div N + 1}"
    using set_section_sizes [of "length ary" N] by simp
  ultimately show ?thesis by blast
qed

lemma windows_props:
  assumes ws: "0 < window_size sr" and len: "window_size sr \<le> length audio"
  shows "\<exists>wins. windows audio sr = Inr wins \<and>
           length wins = length audio div window_size sr \<and>
           concat wins = audio \<and>
           (\<forall>w\<in>set wins. window_size sr \<le> length w) \<and>
           (window_size sr dvd length audio \<longrightarrow> (\<forall>w\<in>set wins. length w = window_size sr))"
proof -
  let ?k = "window_size sr"
  let ?L = "length audio"
  let ?N = "?L div ?k"
  have N: "0 < ?N" using ws len by (simp add: div_greater_zero_iff)
  from array_split_props [OF N, of audio] obtain wins where
    w: "array_split audio ?N = Inr wins" "length wins = ?N" "concat wins = audio"
       "set (map length wins) \<subseteq> {?L div ?N, ?L div ?N + 1}"
    by blast
  have ge: "?k \<le> ?L div ?N" using ws len by (rule div_div_ge)
  have "\<forall>w\<in>set wins. ?k \<le> length w"
  proof
    fix x assume "x \<in> set wins"
    then have "length x \<in> {?L div ?N, ?L div ?N + 1}" using w(4) by auto
    then show "?k \<le> length x" using ge by auto
  qed
  moreover have "\<forall>w\<in>set wins. length w = ?k" if d: "?k dvd ?L"
  proof
    fix x assume x: "x \<in> set wins"
    from d obtain q where q: "?L = ?k * q" by (auto simp add: dvd_def)
    then have Nq: "?N = q" using ws by simp
    have "0 < q" using N Nq by simp
    have "section_sizes ?L ?N = replicate q ?k"
      using section_sizes_exact [OF ws \<open>0 < q\<close>] by (metis Nq q mult.commute)
    moreover have "map length wins = section_sizes ?L ?N"
    proof -
      have "Inr wins = (Inr (sub_arrays audio 0 (section_sizes ?L ?N)) :: exn + real list list)"
        using w(1) N by (simp add: array_split_def)
      then have "wins = sub_arrays audio 0 (section_sizes ?L ?N)" by simp
      then show ?thesis using N by (simp add: lengths_sub_arrays sum_list_section_sizes)
    qed
    ultimately have "set (map length wins) \<subseteq> {?k}" by auto
    then show "length x = ?k" using x by auto
  qed
  moreover have "windows audio sr = Inr wins"
    using ws w(1) by (simp add: windows_def)
  ultimately show ?thesis using w(2,3) by blast
qed

lemma windows_too_short:
  "length audio < window_size sr \<Longrightarrow>
     windows audio sr = Inl (ValueError ''number sections must be larger than 0.'')"
  by (simp add: windows_def array_split_def)

lemma sub_arrays_blocks:
  "\<forall>b\<in>set blocks. length b = k \<Longrightarrow>
     sub_arrays (pre @ concat blocks) (length pre) (replicate (length blocks) k) = blocks"
proof (induction blocks arbitrary: pre)
  case Nil
  show ?case by simp
next
  case (Cons b blocks)
  have k: "length b = k" and rest: "\<forall>b\<in>set blocks. length b = k"
    using Cons.prems by simp_all
  have "slice (pre @ b @ concat blocks) (length pre) (length pre + k) = b"
    by (simp add: slice_def k)
  moreover have "sub_arrays ((pre @ b) @ concat blocks) (length (pre @ b))
      (replicate (length blocks) k) = blocks"
    using rest by (rule Cons.IH)
  ultimately show ?case by (simp add: k)
qed

lemma windows_blocks:
  assumes ne: "blocks \<noteq> []" and k: "0 < window_size sr"
    and len: "\<forall>b\<in>set blocks. length b = window_size sr"
  shows "windows (concat blocks) sr = Inr blocks"
proof -
  let ?k = "window_size sr"
  have L: "length (concat blocks) = length blocks * ?k"
    using len by (induction blocks) simp_all
  have q: "0 < length blocks" using ne by simp
  have N: "length (concat blocks) div ?k = length blocks" using k by (simp add: L)
  have "section_sizes (length blocks * ?k) (length blocks) = replicate (length blocks) ?k"
    using k q by (rule section_sizes_exact)
  moreover have "sub_arrays ([] @ concat blocks) (length ([] :: real list))
      (replicate (length blocks) ?k) = blocks"
    using len by (rule sub_arrays_blocks)
  ultimately show ?thesis
    using k q by (simp add: windows_def array_split_def N) (simp add: L)
qed

lemma rms_replicate: "0 < n \<Longrightarrow> rms (replicate n x) = \<bar>x\<bar>"
  by (simp add: rms_def mean_def sum_list_replicate map_replicate_const)

lemma db_to_amplitude_pos: "0 < db_to_amplitude d"
  by (simp add: db_to_amplitude_def)

lemma tenth_powr: "(1 / 10 :: real) = 10 powr (- 1)"
  by (simp add: powr_minus_divide)

lemma default_floor_below: "db_to_amplitude (- 45) < 1 / 10"
  unfolding db_to_amplitude_def tenth_powr by (rule powr_less_mono) simp_all

lemma default_ceiling_above: "1 / 10 < db_to_amplitude (- 10)"
  unfolding db_to_amplitude_def tenth_powr by (rule powr_less_mono) simp_all

lemma burst_windows:
  "windows burst_audio 44100 =
     Inr [replicate 4410 (1 / 10), replicate 4410 0, replicate 4410 (1 / 10)]"
  unfolding burst_audio_def by (rule windows_blocks) (simp_all add: window_size_def)

lemma burst_valid:
  "valid_windows (default_worker vp)
     (map rms [replicate 4410 (1 / 10), replicate 4410 0, replicate 4410 (1 / 10)]) = [0, 2]"
proof -
  have "\<not> db_to_amplitude (- 45) < 0"
    using db_to_amplitude_pos [of "- 45"] by simp
  then show ?thesis
    using default_floor_below default_ceiling_above
    by (simp add: valid_windows_def rms_replicate default_worker_def DerushWorker_init_def)
qed

lemma burst_detect:
  "detect_nonsilent (default_worker vp) burst_audio 44100 = Inr [(0, 7 / 10)]"
proof -
  have d: "buffer_duration burst_audio 44100 = 3 / 10"
    by (simp add: buffer_duration_def burst_audio_def)
  have "ranges_of_valid (default_worker vp) [0, 2] (3 / 10) = [(0, 7 / 10)]"
    by (simp add: ranges_of_valid_def default_worker_def DerushWorker_init_def Let_def
        merge_overlapping_ranges_def)
  then show ?thesis
    by (simp only: detect_nonsilent_def burst_windows burst_valid d sum.case)
qed

text \<open>
  Claim C1 as stated fails when the length is not a multiple of the window size. With a
  window of 2 samples (20 Hz) and 5 samples, the two windows analysed have 3 and 2 samples:
  the first is longer than 100 ms and the fifth sample is not dropped.
\<close>

theorem windows_not_exact_counterexample:
  "window_size 20 = 2 \<and>
   windows [1, 2, 3, 4, 5] 20 = Inr [[1, 2, 3], [4, 5]] \<and>
   length [1, 2, 3 :: real] \<noteq> window_size 20"
  by code_simp

text \<open>
  Claim C1, amended. For a buffer of at least one window (\<open>window_size = int(0.1 *
  sample_rate) > 0\<close>), the classifier splits the buffer into exactly
  \<open>floor(len / window_size)\<close> consecutive, non-overlapping windows whose concatenation is
  the whole buffer (no sample is dropped), and computes the RMS \<open>sqrt(mean(sample^2))\<close> of
  each; every window has at least \<open>window_size\<close> samples, and exactly \<open>window_size\<close>
  (100 ms) when the length of the buffer is a multiple of the window size.
\<close>

theorem windows_cover_buffer:
  assumes ws: "0 < window_size sample_rate"
    and len: "window_size sample_rate \<le> length audio_array"
  shows "\<exists>wins. windows audio_array sample_rate = Inr wins \<and>
           length wins = length audio_array div window_size sample_rate \<and>
           concat wins = audio_array \<and>
           (\<forall>w\<in>set wins. window_size sample_rate \<le> length w) \<and>
           (window_size sample_rate dvd length audio_array \<longrightarrow>
              (\<forall>w\<in>set wins. length w = window_size sample_rate)) \<and>
           (\<forall>w\<in>set wins. rms w = sqrt (sum_list (map (\<lambda>x. x\<^sup>2) w) / real (length w))) \<and>
           detect_nonsilent self audio_array sample_rate =
             Inr (ranges_of_valid self (valid_windows self (map rms wins))
                    (buffer_duration audio_array sample_rate))"
proof -
  from windows_props [OF ws len] obtain wins where
    w: "windows audio_array sample_rate = Inr wins"
       "length wins = length audio_array div window_size sample_rate"
       "concat wins = audio_array"
       "\<forall>w\<in>set wins. window_size sample_rate \<le> length w"
       "window_size sample_rate dvd length audio_array \<longrightarrow>
          (\<forall>w\<in>set wins. length w = window_size sample_rate)"
    by blast
  have "\<forall>w\<in>set wins. rms w = sqrt (sum_list (map (\<lambda>x. x\<^sup>2) w) / real (length w))"
    by (simp add: rms_def mean_def)
  moreover have "detect_nonsilent self audio_array sample_rate =
             Inr (ranges_of_valid self (valid_windows self (map rms wins))
                    (buffer_duration audio_array sample_rate))"
    by (simp add: detect_nonsilent_def w(1))
  ultimately show ?thesis using w by blast
qed

text \<open>Four samples at 20 Hz are analysed as two windows of two samples.\<close>

theorem windows_cover_buffer_witness:
  "0 < window_size 20 \<and> window_size 20 \<le> length [1, 2, 3, 4 :: real] \<and>
   window_size 20 dvd length [1, 2, 3, 4 :: real] \<and>
   windows [1, 2, 3, 4] 20 = Inr [[1, 2], [3, 4]] \<and>
   length [[1, 2], [3, 4 :: real]] = length [1, 2, 3, 4 :: real] div window_size 20 \<and>
   concat [[1, 2], [3, 4 :: real]] = [1, 2, 3, 4] \<and>
   length [1, 2 :: real] = window_size 20 \<and> length [3, 4 :: real] = window_size 20"
proof -
  have k: "window_size 20 = 2" by code_simp
  have ev: "windows [1, 2, 3, 4] 20 = Inr [[1, 2], [3, 4]]" by code_simp
  have h1: "0 < window_size 20" and h2: "window_size 20 \<le> length [1, 2, 3, 4 :: real]"
    by (simp_all add: k)
  from windows_cover_buffer [OF h1 h2] obtain wins where
    "windows [1, 2, 3, 4] 20 = Inr wins"
    "length wins = length [1, 2, 3, 4 :: real] div window_size 20"
    "concat wins = [1, 2, 3, 4]"
    "window_size 20 dvd length [1, 2, 3, 4 :: real] \<longrightarrow>
       (\<forall>w\<in>set wins. length w = window_size 20)"
    by blast
  then show ?thesis using ev by (simp add: k)
qed

text \<open>
  Claim C10. For a buffer with fewer samples than one window
  (\<open>len(audio_array) < int(0.1 * sample_rate)\<close>), \<^verbatim>\<open>detect_nonsilent\<close> does not return the
  empty list: the number of sections is 0 and \<^verbatim>\<open>np.array_split\<close> raises \<^verbatim>\<open>ValueError\<close>.
\<close>

theorem detect_nonsilent_short_buffer_raises:
  assumes "length audio_array < window_size sample_rate"
  shows "detect_nonsilent self audio_array sample_rate =
           Inl (ValueError ''number sections must be larger than 0.'') \<and>
         detect_nonsilent self audio_array sample_rate \<noteq> Inr []"
  using assms by (simp add: detect_nonsilent_def windows_too_short)

text \<open>One sample at 44100 Hz.\<close>

theorem detect_nonsilent_short_buffer_raises_witness:
  "length [1 / 10 :: real] < window_size 44100 \<and>
   detect_nonsilent (default_worker ''v.mp4'') [1 / 10] 44100 =
     Inl (ValueError ''number sections must be larger than 0.'')"
proof -
  have h: "length [1 / 10 :: real] < window_size 44100" by (simp add: window_size_def)
  from detect_nonsilent_short_buffer_raises [OF h, of "default_worker ''v.mp4''"]
  show ?thesis using h by simp
qed

text \<open>
  Claim C2 says that every range \<^verbatim>\<open>detect_nonsilent\<close> returns ends within the buffer. The
  code clamps the end of the last run only (line 112); the end of an earlier run (line 105)
  is not clamped. With the default settings, on the 0.3 s of \<open>burst_audio\<close> (windows 0 and 2
  are valid), the run of window 0 gives the range (0, 0.7), the last run is dropped as too
  short, and the result is the range (0, 0.7), which ends 0.4 s after the buffer.
\<close>

theorem detect_nonsilent_end_beyond_buffer:
  "detect_nonsilent (default_worker ''v.mp4'') burst_audio 44100 = Inr [(0, 7 / 10)] \<and>
   buffer_duration burst_audio 44100 = 3 / 10 \<and>
   \<not> snd (0 :: real, 7 / 10 :: real) \<le> buffer_duration burst_audio 44100"
proof -
  have d: "buffer_duration burst_audio 44100 = 3 / 10"
    by (simp add: buffer_duration_def burst_audio_def)
  show ?thesis using burst_detect [of "''v.mp4''"] by (simp add: d)
qed

subsection \<open>Calls of the extractor and the concatenator\<close>

lemma quiet_return: "quiet (io_return x)"
  by (simp add: quiet_def io_return_def)

lemma quiet_raise: "quiet (io_raise e)"
  by (simp add: quiet_def io_raise_def)

lemma quiet_lift: "quiet (io_lift r)"
  by (simp add: quiet_def io_lift_def)

lemma quiet_state:
  "quiet get_temp_dir" "quiet (set_temp_dir d)"
  "quiet get_temp_audio_path" "quiet (set_temp_audio_path p)"
  by (simp_all add: quiet_def get_temp_dir_def set_temp_dir_def get_temp_audio_path_def
      set_temp_audio_path_def)

lemma quiet_call: "\<not> is_transcoder_event ev \<Longrightarrow> quiet (io_call ev answer)"
  by (simp add: quiet_def io_call_def transcoder_events_def)

lemma quiet_bind:
  assumes "quiet m" and "\<And>x. quiet (f x)"
  shows "quiet (io_bind m f)"
proof -
  have "transcoder_events (trace (snd (io_bind m f st))) = transcoder_events (trace st)" for st
  proof (cases "m st")
    case (Pair r st')
    have m: "transcoder_events (trace st') = transcoder_events (trace st)"
      using assms(1) Pair by (auto simp add: quiet_def dest: spec [of _ st])
    show ?thesis
    proof (cases r)
      case (Inl e)
      then show ?thesis using Pair m by (simp add: io_bind_def)
    next
      case (Inr x)
      have "transcoder_events (trace (snd (f x st'))) = transcoder_events (trace st')"
        using assms(2) [of x] by (simp add: quiet_def)
      then show ?thesis using Pair Inr m by (simp add: io_bind_def)
    qed
  qed
  then show ?thesis by (simp add: quiet_def)
qed

lemma quiet_try:
  assumes "quiet m" and "\<And>e. quiet (h e)"
  shows "quiet (io_try m h)"
proof -
  have "transcoder_events (trace (snd (io_try m h st))) = transcoder_events (trace st)" for st
  proof (cases "m st")
    case (Pair r st')
    have m: "transcoder_events (trace st') = transcoder_events (trace st)"
      using assms(1) Pair by (auto simp add: quiet_def dest: spec [of _ st])
    show ?thesis
    proof (cases r)
      case (Inl e)
      have "transcoder_events (trace (snd (h e st'))) = transcoder_events (trace st')"
        using assms(2) [of e] by (simp add: quiet_def)
      then show ?thesis using Pair Inl m by (simp add: io_try_def)
    next
      case (Inr x)
      then show ?thesis using Pair m by (simp add: io_try_def)
    qed
  qed
  then show ?thesis by (simp add: quiet_def)
qed

lemma quiet_if: "quiet a \<Longrightarrow> quiet b \<Longrightarrow> quiet (if c then a else b)"
  by simp

lemma quiet_update_progress: "quiet (update_progress self v)"
  by (cases "progress_callback self") (simp_all add: update_progress_def quiet_return quiet_call)

lemma quiet_exists_path: "quiet (exists_path world p)"
  by (simp add: exists_path_def quiet_call)

lemma quiet_create_temp_directory: "quiet (create_temp_directory world)"
  unfolding create_temp_directory_def
  by (intro quiet_bind quiet_call quiet_state quiet_return) simp

lemma quiet_remove_files: "quiet (remove_files world dir files)"
proof (induction files)
  case Nil
  show ?case by (simp add: quiet_return)
next
  case (Cons f fs)
  show ?case
    unfolding remove_files.simps
    by (intro quiet_bind quiet_try quiet_call quiet_return Cons.IH) simp
qed

lemma quiet_cleanup_temp_directory: "quiet (cleanup_temp_directory world)"
  unfolding cleanup_temp_directory_def
  by (intro quiet_bind quiet_if quiet_try quiet_state quiet_return quiet_exists_path
      quiet_remove_files quiet_call) simp_all

lemma quiet_run_handler: "quiet (run_handler world e)"
  unfolding run_handler_def
  by (intro quiet_bind quiet_if quiet_try quiet_state quiet_return quiet_raise
      quiet_exists_path quiet_cleanup_temp_directory quiet_call) simp_all

lemma quiet_run_prepare: "quiet (run_prepare world self)"
  unfolding run_prepare_def
  by (intro quiet_bind quiet_create_temp_directory quiet_update_progress quiet_state
      quiet_call) (simp_all add: quiet_return split: prod.splits)

lemma io_try_unit: "fst (io_try m (\<lambda>e. io_return ()) st) = Inr ()"
  by (cases "m st") (auto simp add: io_try_def io_return_def split: sum.splits)

lemma run_handler_raises: "fst (run_handler world e st) = Inl e"
proof -
  let ?m = "io_try
                (io_bind get_temp_audio_path (\<lambda>p.
                 io_bind (if \<not> truthy p then io_return ()
                          else io_bind (exists_path world (the p)) (\<lambda>ex.
                               if \<not> ex then io_return ()
                               else io_call (EvRemove (the p)) (\<lambda>tr. os_remove world tr (the p))))
                   (\<lambda>_.
                 cleanup_temp_directory world)))
                (\<lambda>cleanup_error. io_return ())"
  obtain r st' where r: "?m st = (r, st')" by (cases "?m st")
  have "fst (?m st) = Inr ()" by (rule io_try_unit)
  then have "r = Inr ()" using r by simp
  then show ?thesis using r by (simp add: run_handler_def io_bind_def io_raise_def)
qed

subsection \<open>Failures of the pipeline\<close>

text \<open>
  Claim C8. Given an empty list of segment files, \<^verbatim>\<open>concat_segments_ffmpeg\<close> raises
  \<^verbatim>\<open>ValueError("Aucun segment a concatener")\<close> (with its accents) at once: the only thing
  recorded is the entry of the method, so no path is tested, no manifest is written and no
  process is started. The exception differs from the one \<^verbatim>\<open>run\<close> raises when no range is
  detected (both are \<^verbatim>\<open>ValueError\<close>; the messages differ).
\<close>

theorem concat_empty_list_raises:
  "concat_segments_ffmpeg world [] output_file st =
     (Inl (ValueError msg_no_segment_to_concat),
      st\<lparr>trace := trace st @ [EvConcatSegments [] output_file]\<rparr>) \<and>
   ValueError msg_no_segment_to_concat \<noteq> ValueError msg_no_segment_detected"
  by (simp add: concat_segments_ffmpeg_def io_bind_def io_call_def io_raise_def
      msg_no_segment_to_concat_def msg_no_segment_detected_def)

lemma run_propagates:
  assumes "run_body world self st = (Inl e, st1)"
  shows "fst (run world self st) = Inl e"
  using assms run_handler_raises [of world e st1] by (simp add: run_def io_try_def)

text \<open>
  Claim C7. When the run reaches the classifier (the workspace, the video and the audio
  were obtained) and the classifier yields no range, \<^verbatim>\<open>run\<close> fails with
  \<^verbatim>\<open>ValueError("Aucun segment audio detecte avec ces parametres")\<close> (with its accents), and
  the whole run, cleanup included, adds no call of the segment extractor or of the
  concatenator: neither method is entered, no transcoder process is started, no manifest is
  written.
\<close>

theorem run_no_segments:
  assumes prep: "run_prepare world self st = (Inr (dir, duration, audio_data, sample_rate), st1)"
    and none: "detect_nonsilent self audio_data sample_rate = Inr []"
  shows "fst (run world self st) = Inl (ValueError msg_no_segment_detected) \<and>
         transcoder_events (trace (snd (run world self st))) = transcoder_events (trace st)"
proof -
  have seg: "run_segments world self dir duration audio_data sample_rate st1 =
      (Inl (ValueError msg_no_segment_detected), st1)"
    by (simp add: run_segments_def io_bind_def io_lift_def none io_raise_def)
  have body: "run_body world self st = (Inl (ValueError msg_no_segment_detected), st1)"
    by (simp add: run_body_def io_bind_def prep seg)
  have "transcoder_events (trace st1) = transcoder_events (trace st)"
    using quiet_run_prepare [of world self] prep
    by (auto simp add: quiet_def dest: spec [of _ st])
  moreover have "transcoder_events
      (trace (snd (run_handler world (ValueError msg_no_segment_detected) st1))) =
      transcoder_events (trace st1)"
    using quiet_run_handler [of world "ValueError msg_no_segment_detected"]
    by (simp add: quiet_def)
  moreover have "run world self st = run_handler world (ValueError msg_no_segment_detected) st1"
    by (simp add: run_def io_try_def body)
  ultimately show ?thesis using run_propagates [OF body] by simp
qed

lemma silent_detect:
  "detect_nonsilent (default_worker vp) silent_audio 44100 = Inr []"
proof -
  have w: "windows silent_audio 44100 =
     Inr [replicate 4410 0, replicate 4410 0, replicate 4410 0]"
    unfolding silent_audio_def by (rule windows_blocks) (simp_all add: window_size_def)
  have "\<not> db_to_amplitude (- 45) < 0"
    using db_to_amplitude_pos [of "- 45"] by simp
  then have v: "valid_windows (default_worker vp)
     (map rms [replicate 4410 0, replicate 4410 0, replicate 4410 0]) = []"
    by (simp add: valid_windows_def rms_replicate default_worker_def DerushWorker_init_def)
  show ?thesis
    by (simp only: detect_nonsilent_def w v sum.case) (simp add: ranges_of_valid_def)
qed

lemma sample_prepare:
  "run_prepare (sample_world audio) (default_worker vp) init_state =
     (Inr (''/tmp/derusher_k3'', 3 / 10, audio, 44100),
      \<lparr> trace = [EvMkdtemp, EvVideoFileClip vp, EvNamedTemporaryFile, EvTempfileClose,
                  EvWriteAudiofile ''/tmp/tmpq7.wav'', EvSfRead ''/tmp/tmpq7.wav''],
        temp_dir = Some ''/tmp/derusher_k3'',
        temp_audio_path = Some ''/tmp/tmpq7.wav'' \<rparr>)"
  by (simp add: run_prepare_def create_temp_directory_def update_progress_def io_bind_def
      io_call_def io_return_def set_temp_dir_def set_temp_audio_path_def sample_world_def
      default_worker_def DerushWorker_init_def init_state_def to_mono_def)

text \<open>A run on 0.3 s of silence, in a world where every call succeeds.\<close>

theorem run_no_segments_witness:
  "run_prepare (sample_world silent_audio) (default_worker ''/videos/clip.mov'') init_state =
     (Inr (''/tmp/derusher_k3'', 3 / 10, silent_audio, 44100),
      \<lparr> trace = [EvMkdtemp, EvVideoFileClip ''/videos/clip.mov'', EvNamedTemporaryFile,
                  EvTempfileClose, EvWriteAudiofile ''/tmp/tmpq7.wav'',
                  EvSfRead ''/tmp/tmpq7.wav''],
        temp_dir = Some ''/tmp/derusher_k3'',
        temp_audio_path = Some ''/tmp/tmpq7.wav'' \<rparr>) \<and>
   detect_nonsilent (default_worker ''/videos/clip.mov'') silent_audio 44100 = Inr [] \<and>
   fst (run (sample_world silent_audio) (default_worker ''/videos/clip.mov'') init_state) =
     Inl (ValueError msg_no_segment_detected) \<and>
   transcoder_events (trace (snd (run (sample_world silent_audio)
     (default_worker ''/videos/clip.mov'') init_state))) = []"
proof -
  note p = sample_prepare [of silent_audio "''/videos/clip.mov''"]
  note d = silent_detect [of "''/videos/clip.mov''"]
  from run_no_segments [OF p d] show ?thesis
    using p d by (simp add: init_state_def transcoder_events_def)
qed

lemma segment_0: "path_join ''/tmp/derusher_k3'' (segment_name 0) = ''/tmp/derusher_k3/segment_0000.mp4''"
  by code_simp

lemma locked_prepare:
  "run_prepare locked_audio_world (default_worker vp) init_state =
     (Inr (''/tmp/derusher_k3'', 3 / 10, burst_audio, 44100),
      \<lparr> trace = [EvMkdtemp, EvVideoFileClip vp, EvNamedTemporaryFile, EvTempfileClose,
                  EvWriteAudiofile ''/tmp/tmpq7.wav'', EvSfRead ''/tmp/tmpq7.wav''],
        temp_dir = Some ''/tmp/derusher_k3'',
        temp_audio_path = Some ''/tmp/tmpq7.wav'' \<rparr>)"
  by (simp add: run_prepare_def create_temp_directory_def update_progress_def io_bind_def
      io_call_def io_return_def set_temp_dir_def set_temp_audio_path_def sample_world_def
      locked_audio_world_def
      default_worker_def DerushWorker_init_def init_state_def to_mono_def)

text \<open>
  Claim C6 says that on any exception the run attempts the removal of both the temporary
  audio file and the workspace before it raises the original exception again. In the handler
  (lines 262-267) both removals are under one \<^verbatim>\<open>try\<close>: when \<^verbatim>\<open>os.remove\<close> of the audio file
  raises, \<^verbatim>\<open>cleanup_temp_directory\<close> is never called. In \<open>locked_audio_world\<close> the
  extraction of the first segment fails and the audio file cannot be removed: the run
  raises the \<^verbatim>\<open>RuntimeError\<close> of the extraction (the original exception, and the
  concatenator is not called), but its last call is the failed \<^verbatim>\<open>os.remove\<close>; the workspace
  is neither listed nor removed.
\<close>

theorem run_locked_audio_skips_workspace_cleanup:
  "run locked_audio_world (default_worker ''/videos/clip.mov'') init_state =
     (Inl (RuntimeError msg_extract_failed),
      \<lparr> trace = [EvMkdtemp, EvVideoFileClip ''/videos/clip.mov'', EvNamedTemporaryFile,
                  EvTempfileClose, EvWriteAudiofile ''/tmp/tmpq7.wav'',
                  EvSfRead ''/tmp/tmpq7.wav'', EvVideoClose,
                  EvExtractSegment ''/videos/clip.mov'' ''/tmp/derusher_k3/segment_0000.mp4''
                    0 (3 / 10),
                  EvFfmpegExtract ''/videos/clip.mov'' ''/tmp/derusher_k3/segment_0000.mp4''
                    0 (3 / 10),
                  EvExists ''/tmp/tmpq7.wav'', EvRemove ''/tmp/tmpq7.wav''],
        temp_dir = Some ''/tmp/derusher_k3'',
        temp_audio_path = Some ''/tmp/tmpq7.wav'' \<rparr>) \<and>
   filter is_workspace_removal
     (trace (snd (run locked_audio_world (default_worker ''/videos/clip.mov'') init_state))) = []"
proof -
  let ?vp = "''/videos/clip.mov''"
  let ?st1 = "\<lparr> trace = [EvMkdtemp, EvVideoFileClip ?vp, EvNamedTemporaryFile, EvTempfileClose,
                  EvWriteAudiofile ''/tmp/tmpq7.wav'', EvSfRead ''/tmp/tmpq7.wav''],
        temp_dir = Some ''/tmp/derusher_k3'',
        temp_audio_path = Some ''/tmp/tmpq7.wav'' \<rparr>"
  let ?st2 = "?st1\<lparr>trace := trace ?st1 @ [EvVideoClose,
                  EvExtractSegment ?vp ''/tmp/derusher_k3/segment_0000.mp4'' 0 (3 / 10),
                  EvFfmpegExtract ?vp ''/tmp/derusher_k3/segment_0000.mp4'' 0 (3 / 10)]\<rparr>"
  have vp: "video_path (default_worker ?vp) = ?vp"
    and cb: "progress_callback (default_worker ?vp) = None"
    by (simp_all add: default_worker_def DerushWorker_init_def)
  have seg: "run_segments locked_audio_world (default_worker ?vp) ''/tmp/derusher_k3'' (3 / 10)
      burst_audio 44100 ?st1 = (Inl (RuntimeError msg_extract_failed), ?st2)"
    by (simp add: run_segments_def io_bind_def io_lift_def burst_detect io_call_def
        update_progress_def cb vp io_return_def io_raise_def io_try_def segment_0
        extract_segment_ffmpeg_def subprocess_handler_def locked_audio_world_def
        sample_world_def)
  have body: "run_body locked_audio_world (default_worker ?vp) init_state =
      (Inl (RuntimeError msg_extract_failed), ?st2)"
    by (simp only: run_body_def io_bind_def locked_prepare prod.case sum.case seg)
  have handler: "run_handler locked_audio_world (RuntimeError msg_extract_failed) ?st2 =
      (Inl (RuntimeError msg_extract_failed),
       ?st2\<lparr>trace := trace ?st2 @ [EvExists ''/tmp/tmpq7.wav'', EvRemove ''/tmp/tmpq7.wav'']\<rparr>)"
    by (simp add: run_handler_def io_bind_def io_try_def get_temp_audio_path_def truthy_def
        exists_path_def io_call_def io_return_def io_raise_def locked_audio_world_def
        sample_world_def)
  have "run locked_audio_world (default_worker ?vp) init_state =
      run_handler locked_audio_world (RuntimeError msg_extract_failed) ?st2"
    by (simp only: run_def io_try_def body prod.case sum.case)
  then have r: "run locked_audio_world (default_worker ?vp) init_state =
      (Inl (RuntimeError msg_extract_failed),
       ?st2\<lparr>trace := trace ?st2 @ [EvExists ''/tmp/tmpq7.wav'', EvRemove ''/tmp/tmpq7.wav'']\<rparr>)"
    by (simp only: handler)
  show ?thesis unfolding r by simp
qed

lemma unremovable_prepare:
  "run_prepare unremovable_audio_world (default_worker vp) init_state =
     (Inr (''/tmp/derusher_k3'', 3 / 10, burst_audio, 44100),
      \<lparr> trace = [EvMkdtemp, EvVideoFileClip vp, EvNamedTemporaryFile, EvTempfileClose,
                  EvWriteAudiofile ''/tmp/tmpq7.wav'', EvSfRead ''/tmp/tmpq7.wav''],
        temp_dir = Some ''/tmp/derusher_k3'',
        temp_audio_path = Some ''/tmp/tmpq7.wav'' \<rparr>)"
  by (simp add: run_prepare_def create_temp_directory_def update_progress_def io_bind_def
      io_call_def io_return_def set_temp_dir_def set_temp_audio_path_def sample_world_def
      unremovable_audio_world_def
      default_worker_def DerushWorker_init_def init_state_def to_mono_def)

text \<open>
  The successful path (lines 248-253) guards the removal of the audio file with its own
  \<^verbatim>\<open>try\<close>: with the same audio file that cannot be removed, a run that succeeds does list
  and remove the workspace.
\<close>

lemma run_success_cleans_workspace:
  "fst (run unremovable_audio_world (default_worker vp) init_state) = Inr (output_path_of vp) \<and>
   filter is_workspace_removal
     (trace (snd (run unremovable_audio_world (default_worker vp) init_state))) =
     [EvListdir ''/tmp/derusher_k3'', EvRmdir ''/tmp/derusher_k3'']"
proof -
  let ?w = "unremovable_audio_world"
  let ?st1 = "\<lparr> trace = [EvMkdtemp, EvVideoFileClip vp, EvNamedTemporaryFile, EvTempfileClose,
                  EvWriteAudiofile ''/tmp/tmpq7.wav'', EvSfRead ''/tmp/tmpq7.wav''],
        temp_dir = Some ''/tmp/derusher_k3'',
        temp_audio_path = Some ''/tmp/tmpq7.wav'' \<rparr>"
  let ?seg = "''/tmp/derusher_k3/segment_0000.mp4''"
  let ?st2 = "?st1\<lparr>trace := trace ?st1 @ [EvVideoClose,
                  EvExtractSegment vp ?seg 0 (3 / 10),
                  EvFfmpegExtract vp ?seg 0 (3 / 10)]\<rparr>"
  have vp: "video_path (default_worker vp) = vp"
    and cb: "progress_callback (default_worker vp) = None"
    by (simp_all add: default_worker_def DerushWorker_init_def)
  have seg: "run_segments ?w (default_worker vp) ''/tmp/derusher_k3'' (3 / 10)
      burst_audio 44100 ?st1 = (Inr [?seg], ?st2)"
    by (simp add: run_segments_def io_bind_def io_lift_def burst_detect io_call_def
        update_progress_def cb vp io_return_def io_raise_def io_try_def segment_0
        extract_segment_ffmpeg_def subprocess_handler_def sample_world_def
        unremovable_audio_world_def)
  have fin: "fst (run_finish ?w (default_worker vp) [?seg] ?st2) = Inr (output_path_of vp) \<and>
      filter is_workspace_removal (trace (snd (run_finish ?w (default_worker vp) [?seg] ?st2))) =
        [EvListdir ''/tmp/derusher_k3'', EvRmdir ''/tmp/derusher_k3'']"
    by (simp add: run_finish_def concat_segments_ffmpeg_def io_bind_def io_call_def
        update_progress_def cb vp io_return_def io_raise_def io_try_def exists_path_def
        get_temp_dir_def get_temp_audio_path_def truthy_def cleanup_after_success_def
        cleanup_temp_directory_def sample_world_def unremovable_audio_world_def)
  have body: "run_body ?w (default_worker vp) init_state =
      run_finish ?w (default_worker vp) [?seg] ?st2"
    by (simp only: run_body_def io_bind_def unremovable_prepare prod.case sum.case seg)
  have "run ?w (default_worker vp) init_state = run_finish ?w (default_worker vp) [?seg] ?st2"
    using fin
    by (cases "run_finish ?w (default_worker vp) [?seg] ?st2")
      (simp add: run_def io_try_def body)
  then show ?thesis using fin by simp
qed

subsection \<open>The output path\<close>

lemma rfind_last:
  assumes "c \<in> set p"
  shows "\<exists>a b. p = a @ c # b \<and> c \<notin> set b \<and> rfind c p = int (length a)"
proof -
  from split_list_last [OF assms] obtain a b where p: "p = a @ c # b" and b: "c \<notin> set b"
    by blast
  have "\<forall>x\<in>set (rev b). x \<noteq> c" using b by auto
  then have "takeWhile (\<lambda>x. x \<noteq> c) (rev b @ c # rev a) = rev b"
    using takeWhile_append2 [of "rev b" "\<lambda>x. x \<noteq> c" "c # rev a"] by simp
  then have "rfind c p = int (length a)"
    by (simp add: rfind_def p)
  then show ?thesis using p b by blast
qed

lemma rfind_bounds: "- 1 \<le> rfind c p \<and> rfind c p < int (length p)"
proof (cases "c \<in> set p")
  case True
  from rfind_last [OF True] show ?thesis by auto
next
  case False
  then show ?thesis by (simp add: rfind_def)
qed

lemma rfind_absent: "c \<notin> set p \<Longrightarrow> rfind c p = - 1"
  by (simp add: rfind_def)

lemma rfind_append:
  assumes "c \<notin> set ys"
  shows "rfind c (xs @ ys) = rfind c xs"
proof (cases "c \<in> set xs")
  case True
  from rfind_last [OF True] obtain a b where
    x: "xs = a @ c # b" "c \<notin> set b" "rfind c xs = int (length a)" by blast
  have "\<forall>x\<in>set (rev ys @ rev b). x \<noteq> c" using assms x(2) by auto
  then have "takeWhile (\<lambda>x. x \<noteq> c) ((rev ys @ rev b) @ c # rev a) = rev ys @ rev b"
    using takeWhile_append2 [of "rev ys @ rev b" "\<lambda>x. x \<noteq> c" "c # rev a"] by simp
  then have "rfind c (xs @ ys) = int (length a)"
    by (simp add: rfind_def x(1))
  then show ?thesis using x(3) by simp
next
  case False
  then show ?thesis using assms by (simp add: rfind_def)
qed

lemma after_rfind:
  assumes "rfind c p < int n"
  shows "c \<notin> set (drop n p)"
proof (cases "c \<in> set p")
  case True
  from rfind_last [OF True] obtain a b where
    x: "p = a @ c # b" "c \<notin> set b" "rfind c p = int (length a)" by blast
  have "length a < n" using assms x(3) by simp
  then have "drop n p = drop (n - length a - 1) b"
    by (simp add: x(1)) (metis Suc_diff_Suc drop_Suc_Cons)
  then show ?thesis using x(2) by (metis in_set_dropD)
next
  case False
  then show ?thesis by (metis in_set_dropD)
qed

lemma splitext_append: "fst (splitext p) @ snd (splitext p) = p"
  by (simp add: splitext_def Let_def)

lemma splitext_ext_no_sep: "CHR ''/'' \<notin> set (snd (splitext p))"
proof (cases "rfind CHR ''.'' p > rfind CHR ''/'' p \<and>
    skip_leading_dots p (nat (rfind CHR ''/'' p + 1)) (nat (rfind CHR ''.'' p))")
  case True
  then have "rfind CHR ''/'' p < int (nat (rfind CHR ''.'' p))"
    using rfind_bounds [of "CHR ''/''" p] by simp
  then have "CHR ''/'' \<notin> set (drop (nat (rfind CHR ''.'' p)) p)" by (rule after_rfind)
  then show ?thesis using True by (simp add: splitext_def Let_def)
next
  case False
  then show ?thesis by (auto simp add: splitext_def Let_def)
qed

lemma dirname_append:
  assumes "CHR ''/'' \<notin> set ys"
  shows "dirname (xs @ ys) = dirname xs"
proof -
  have r: "rfind CHR ''/'' (xs @ ys) = rfind CHR ''/'' xs" using assms by (rule rfind_append)
  have "nat (rfind CHR ''/'' xs + 1) \<le> length xs"
    using rfind_bounds [of "CHR ''/''" xs] by linarith
  then have t: "take (nat (rfind CHR ''/'' xs + 1)) (xs @ ys) = take (nat (rfind CHR ''/'' xs + 1)) xs"
    by simp
  show ?thesis by (simp only: dirname_def r t)
qed

lemma dirname_output_path: "dirname (output_path_of p) = dirname p"
proof -
  have "dirname (output_path_of p) = dirname (fst (splitext p))"
    unfolding output_path_of_def by (rule dirname_append) (simp add: derushed_suffix_def)
  also have "\<dots> = dirname (fst (splitext p) @ snd (splitext p))"
    using splitext_ext_no_sep [of p] by (simp add: dirname_append)
  finally show ?thesis by (simp add: splitext_append)
qed

lemma io_bind_Inr:
  assumes "io_bind m f st = (Inr y, st')"
  shows "\<exists>x st1. m st = (Inr x, st1) \<and> f x st1 = (Inr y, st')"
proof (cases "m st")
  case (Pair r st1)
  then show ?thesis using assms by (cases r) (simp_all add: io_bind_def)
qed

lemma run_finish_result:
  assumes "run_finish world self segment_files st = (Inr out, st')"
  shows "out = output_path_of (video_path self)"
proof -
  from io_bind_Inr [OF assms [unfolded run_finish_def]] obtain success st1 where
    a: "(if \<not> success then io_raise (RuntimeError msg_concat_failed)
         else io_bind (update_progress self 95) (\<lambda>_.
              io_bind (cleanup_after_success world) (\<lambda>_.
              io_bind (update_progress self 100) (\<lambda>_.
              io_return (output_path_of (video_path self)))))) st1 = (Inr out, st')"
    by blast
  then have s: "success" by (auto simp add: io_raise_def split: if_splits)
  from a s have "io_bind (update_progress self 95) (\<lambda>_.
              io_bind (cleanup_after_success world) (\<lambda>_.
              io_bind (update_progress self 100) (\<lambda>_.
              io_return (output_path_of (video_path self))))) st1 = (Inr out, st')"
    by simp
  from io_bind_Inr [OF this] obtain st2 where
    "io_bind (cleanup_after_success world) (\<lambda>_.
              io_bind (update_progress self 100) (\<lambda>_.
              io_return (output_path_of (video_path self)))) st2 = (Inr out, st')"
    by blast
  from io_bind_Inr [OF this] obtain st3 where
    "io_bind (update_progress self 100) (\<lambda>_.
              io_return (output_path_of (video_path self))) st3 = (Inr out, st')"
    by blast
  from io_bind_Inr [OF this] obtain st4 where
    "io_return (output_path_of (video_path self)) st4 = (Inr out, st')"
    by blast
  then show ?thesis by (simp add: io_return_def)
qed

lemma run_result:
  assumes "run world self st = (Inr out, st')"
  shows "out = output_path_of (video_path self)"
proof -
  have body: "run_body world self st = (Inr out, st')"
  proof (cases "run_body world self st")
    case (Pair r st1)
    show ?thesis
    proof (cases r)
      case (Inl e)
      then have "fst (run world self st) = Inl e"
        using Pair by (intro run_propagates) simp
      then show ?thesis using assms by simp
    next
      case (Inr x)
      then show ?thesis using Pair assms by (simp add: run_def io_try_def)
    qed
  qed
  from io_bind_Inr [OF body [unfolded run_body_def]] obtain x st1 where
    "(case x of (dir, duration, audio_data, sample_rate) \<Rightarrow>
        io_bind (run_segments world self dir duration audio_data sample_rate)
          (\<lambda>segment_files. run_finish world self segment_files)) st1 = (Inr out, st')"
    by blast
  then obtain dir duration audio_data sample_rate where
    "io_bind (run_segments world self dir duration audio_data sample_rate)
          (\<lambda>segment_files. run_finish world self segment_files) st1 = (Inr out, st')"
    by (cases x) auto
  from io_bind_Inr [OF this] obtain segment_files st2 where
    "run_finish world self segment_files st2 = (Inr out, st')"
    by blast
  then show ?thesis by (rule run_finish_result)
qed

lemma sample_run:
  "fst (run (sample_world burst_audio) (default_worker vp) init_state) = Inr (output_path_of vp)"
proof -
  let ?w = "sample_world burst_audio"
  let ?st1 = "\<lparr> trace = [EvMkdtemp, EvVideoFileClip vp, EvNamedTemporaryFile, EvTempfileClose,
                  EvWriteAudiofile ''/tmp/tmpq7.wav'', EvSfRead ''/tmp/tmpq7.wav''],
        temp_dir = Some ''/tmp/derusher_k3'',
        temp_audio_path = Some ''/tmp/tmpq7.wav'' \<rparr>"
  let ?seg = "''/tmp/derusher_k3/segment_0000.mp4''"
  let ?st2 = "?st1\<lparr>trace := trace ?st1 @ [EvVideoClose,
                  EvExtractSegment vp ?seg 0 (3 / 10),
                  EvFfmpegExtract vp ?seg 0 (3 / 10)]\<rparr>"
  have vp: "video_path (default_worker vp) = vp"
    and cb: "progress_callback (default_worker vp) = None"
    by (simp_all add: default_worker_def DerushWorker_init_def)
  have seg: "run_segments ?w (default_worker vp) ''/tmp/derusher_k3'' (3 / 10)
      burst_audio 44100 ?st1 = (Inr [?seg], ?st2)"
    by (simp add: run_segments_def io_bind_def io_lift_def burst_detect io_call_def
        update_progress_def cb vp io_return_def io_raise_def io_try_def segment_0
        extract_segment_ffmpeg_def subprocess_handler_def sample_world_def)
  have fin: "fst (run_finish ?w (default_worker vp) [?seg] ?st2) = Inr (output_path_of vp)"
    by (simp add: run_finish_def concat_segments_ffmpeg_def io_bind_def io_call_def
        update_progress_def cb vp io_return_def io_raise_def io_try_def exists_path_def
        get_temp_dir_def get_temp_audio_path_def truthy_def cleanup_after_success_def
        cleanup_temp_directory_def sample_world_def)
  have "fst (run_body ?w (default_worker vp) init_state) = Inr (output_path_of vp)"
    using fin by (simp only: run_body_def io_bind_def sample_prepare prod.case sum.case seg)
  then show ?thesis
    by (cases "run_body ?w (default_worker vp) init_state") (simp add: run_def io_try_def)
qed

lemma clip_mov: "output_path_of ''/videos/clip.mov'' = ''/videos/clip_derushed.mp4'' \<and>
   splitext ''/videos/clip.mov'' = (''/videos/clip'', ''.mov'')"
  by code_simp

text \<open>
  Claim C9 as stated fails for an input whose extension is not \<^verbatim>\<open>.mp4\<close>: a successful run
  on \<^verbatim>\<open>/videos/clip.mov\<close> returns \<^verbatim>\<open>/videos/clip_derushed.mp4\<close>; the extension \<^verbatim>\<open>.mov\<close> is not
  preserved.
\<close>

theorem run_output_extension_counterexample:
  "fst (run (sample_world burst_audio) (default_worker ''/videos/clip.mov'') init_state) =
     Inr ''/videos/clip_derushed.mp4'' \<and>
   splitext ''/videos/clip.mov'' = (''/videos/clip'', ''.mov'') \<and>
   ''/videos/clip_derushed.mp4'' \<noteq> ''/videos/clip'' @ derushed_suffix @ ''.mov'' \<and>
   ''/videos/clip_derushed.mp4'' \<noteq> ''/videos/clip'' @ ''_derushed'' @ ''.mov''"
  using sample_run [of "''/videos/clip.mov''"] clip_mov by (simp add: derushed_suffix_def)

text \<open>
  Claim C9, amended. The output path returned by a successful run is determined by the
  input path alone: it is the input path without its extension (as \<^verbatim>\<open>os.path.splitext\<close>
  splits it) followed by \<^verbatim>\<open>_derushed.mp4\<close>. It lies in the same directory as the input, and
  it is the input path with \<^verbatim>\<open>_derushed\<close> inserted before the extension when that extension
  is \<^verbatim>\<open>.mp4\<close>.
\<close>

theorem run_output_path_derived:
  assumes "run world self st = (Inr out, st')"
  shows "out = fst (splitext (video_path self)) @ ''_derushed.mp4'' \<and>
         fst (splitext (video_path self)) @ snd (splitext (video_path self)) = video_path self \<and>
         dirname out = dirname (video_path self) \<and>
         (snd (splitext (video_path self)) = ''.mp4'' \<longrightarrow>
            out = fst (splitext (video_path self)) @ ''_derushed'' @ snd (splitext (video_path self)))"
proof -
  have out: "out = output_path_of (video_path self)" using assms by (rule run_result)
  then have "out = fst (splitext (video_path self)) @ ''_derushed.mp4''"
    by (simp add: output_path_of_def derushed_suffix_def)
  moreover have "dirname out = dirname (video_path self)"
    unfolding out by (rule dirname_output_path)
  ultimately show ?thesis by (simp add: splitext_append)
qed

lemma talk_mp4: "splitext ''/videos/talk.mp4'' = (''/videos/talk'', ''.mp4'') \<and>
   dirname ''/videos/talk.mp4'' = ''/videos'' \<and>
   dirname ''/videos/talk_derushed.mp4'' = ''/videos''"
  by code_simp

text \<open>A successful run on \<^verbatim>\<open>/videos/talk.mp4\<close>.\<close>

theorem run_output_path_derived_witness:
  "fst (run (sample_world burst_audio) (default_worker ''/videos/talk.mp4'') init_state) =
     Inr ''/videos/talk_derushed.mp4'' \<and>
   snd (splitext ''/videos/talk.mp4'') = ''.mp4'' \<and>
   dirname ''/videos/talk_derushed.mp4'' = dirname ''/videos/talk.mp4''"
proof -
  let ?r = "run (sample_world burst_audio) (default_worker ''/videos/talk.mp4'') init_state"
  have vp: "video_path (default_worker ''/videos/talk.mp4'') = ''/videos/talk.mp4''"
    by (simp add: default_worker_def DerushWorker_init_def)
  have "?r = (Inr (output_path_of ''/videos/talk.mp4''), snd ?r)"
    using sample_run [of "''/videos/talk.mp4''"] by (cases ?r) simp
  from run_output_path_derived [OF this] show ?thesis
    using talk_mp4 sample_run [of "''/videos/talk.mp4''"] by (simp add: vp)
qed

end
